theory Spec2Isabelle
  imports Complex_Main "HOL-Library.Sublist"
begin

section \<open>Values of the source language\<close>

text \<open>
  The program is Python. A \<open>str\<close> is modelled as a \<^typ>\<open>string\<close> whose characters
  stand for the Unicode code points U+0000 to U+00FF of the same number; on that range
  lower-casing, white space, decimal digits and word characters are written out below
  exactly as CPython classifies them. Code points above U+00FF are outside the model.

  Numbers: the rows hold both \<open>int\<close> and \<open>float\<close> values (\<open>0\<close>, \<open>56\<close>, \<open>56.0\<close>),
  which JSON serialises differently, so the two are kept apart. \<open>PyFloat q\<close> stands
  for the double nearest to the rational \<open>q\<close>.
\<close>

datatype pynum = PyInt int | PyFloat rat

datatype error = IndexError | KeyError | ValueError | AttributeError

section \<open>Python strings\<close>

text \<open>
  \<open>str.lower\<close>: on U+0000 to U+00FF the upper-case letters are A to Z and
  U+00C0 to U+00DE without the multiplication sign U+00D7; each maps to the code point
  32 above it, and every other code point maps to itself.
\<close>

definition chr_lower :: "char \<Rightarrow> char" where
  "chr_lower c =
     (let n = (of_char c :: nat) in
      if (65 \<le> n \<and> n \<le> 90) \<or> (192 \<le> n \<and> n \<le> 222 \<and> n \<noteq> 215)
      then char_of (n + 32) else c)"

definition lower :: "string \<Rightarrow> string" where
  "lower s = map chr_lower s"

text \<open>
  White space as \<open>str.split()\<close>, \<open>str.strip()\<close> and the pattern \<open>\s\<close> see it:
  U+0009 to U+000D, U+001C to U+0020, U+0085 and U+00A0.
\<close>

definition isspace :: "char \<Rightarrow> bool" where
  "isspace c =
     (let n = (of_char c :: nat) in
      (9 \<le> n \<and> n \<le> 13) \<or> (28 \<le> n \<and> n \<le> 32) \<or> n = 133 \<or> n = 160)"

text \<open>The pattern \<open>\d\<close>: a decimal digit; below U+0100 these are 0 to 9.\<close>

definition isdecimal :: "char \<Rightarrow> bool" where
  "isdecimal c = (let n = (of_char c :: nat) in 48 \<le> n \<and> n \<le> 57)"

text \<open>
  The pattern \<open>\w\<close>, which decides \<open>\b\<close>: the underscore and every code point that
  is alphabetic, decimal, a digit or numeric. Below U+0100 these are the ASCII letters
  and digits, U+00AA, U+00B2, U+00B3, U+00B5, U+00B9, U+00BA, U+00BC to U+00BE, and
  U+00C0 to U+00FF without U+00D7 and U+00F7.
\<close>

definition isword :: "char \<Rightarrow> bool" where
  "isword c =
     (let n = (of_char c :: nat) in
      (48 \<le> n \<and> n \<le> 57) \<or> (65 \<le> n \<and> n \<le> 90) \<or> n = 95 \<or> (97 \<le> n \<and> n \<le> 122) \<or>
      n = 170 \<or> n = 178 \<or> n = 179 \<or> n = 181 \<or> n = 185 \<or> n = 186 \<or>
      (188 \<le> n \<and> n \<le> 190) \<or> (192 \<le> n \<and> n \<le> 214) \<or> (216 \<le> n \<and> n \<le> 246) \<or>
      (248 \<le> n \<and> n \<le> 255))"

text \<open>\<open>s.strip()\<close>.\<close>

definition strip :: "string \<Rightarrow> string" where
  "strip s = rev (dropWhile isspace (rev (dropWhile isspace s)))"

text \<open>
  \<open>s.split()\<close>: the maximal runs of characters that are not white space. \<open>w\<close> is the
  run being read.
\<close>

fun split_ws_from :: "string \<Rightarrow> string \<Rightarrow> string list" where
  "split_ws_from w [] = (if w = [] then [] else [w])"
| "split_ws_from w (c # cs) =
     (if isspace c then (if w = [] then split_ws_from [] cs else w # split_ws_from [] cs)
      else split_ws_from (w @ [c]) cs)"

definition split_ws :: "string \<Rightarrow> string list" where
  "split_ws s = split_ws_from [] s"

text \<open>\<open>sep.join(xs)\<close>.\<close>

fun join :: "string \<Rightarrow> string list \<Rightarrow> string" where
  "join sep [] = []"
| "join sep [x] = x"
| "join sep (x # y # ys) = x @ sep @ join sep (y # ys)"

text \<open>\<open>sub in s\<close> for two strings: \<open>sub\<close> occurs in \<open>s\<close> as a contiguous substring.\<close>

fun str_in :: "string \<Rightarrow> string \<Rightarrow> bool" where
  "str_in sub [] = (sub = [])"
| "str_in sub (c # cs) = (prefix sub (c # cs) \<or> str_in sub cs)"

text \<open>
  \<open>s.split(sep, 1)[0]\<close> for a separator that is not empty: the text before the first
  occurrence of \<open>sep\<close>, all of \<open>s\<close> when there is none. (\<open>str.split\<close> never returns an
  empty list, so the index cannot fail.)
\<close>

fun split1_head :: "string \<Rightarrow> string \<Rightarrow> string" where
  "split1_head sep [] = []"
| "split1_head sep (c # cs) = (if prefix sep (c # cs) then [] else c # split1_head sep cs)"

text \<open>
  \<open>s.replace(old, new)\<close>: every occurrence of \<open>old\<close>, found from the left without
  overlap, becomes \<open>new\<close>. An empty \<open>old\<close> matches before every character and at the
  end.
\<close>

function replace_from :: "string \<Rightarrow> string \<Rightarrow> string \<Rightarrow> string" where
  "replace_from old new s =
     (if s = [] \<or> old = [] then s
      else if prefix old s then new @ replace_from old new (drop (length old) s)
      else hd s # replace_from old new (tl s))"
  by pat_completeness auto
termination
  by (relation "measure (\<lambda>(old, new, s). length s)") auto

declare replace_from.simps [simp del]

definition replace :: "string \<Rightarrow> string \<Rightarrow> string \<Rightarrow> string" where
  "replace s old new =
     (if old = [] then new @ concat (map (\<lambda>c. c # new) s) else replace_from old new s)"

text \<open>
  \<open>html.unescape(s)\<close> returns \<open>s\<close> itself when it holds no ampersand and otherwise
  substitutes the character references; the substitution is the library's, taken as the
  parameter \<open>charref\<close>.
\<close>

definition unescape :: "(string \<Rightarrow> string) \<Rightarrow> string \<Rightarrow> string" where
  "unescape charref s = (if CHR ''&'' \<in> set s then charref s else s)"

text \<open>
  \<open>float(s)\<close> on the literals the size pattern can capture: decimal digits, then
  possibly a point and more decimal digits. (\<open>float\<close> reads other literals too; the
  program never passes one.)
\<close>

definition digit_val :: "char \<Rightarrow> nat" where
  "digit_val c = of_char c - 48"

definition dec_value :: "string \<Rightarrow> nat" where
  "dec_value ds = foldl (\<lambda>n c. 10 * n + digit_val c) 0 ds"

definition py_float :: "string \<Rightarrow> error + pynum" where
  "py_float s =
     (let ip = takeWhile isdecimal s; r = dropWhile isdecimal s in
      if ip \<noteq> [] \<and> r = [] then Inr (PyFloat (of_nat (dec_value ip)))
      else if ip \<noteq> [] \<and> r \<noteq> [] \<and> hd r = CHR ''.'' \<and> tl r \<noteq> [] \<and> list_all isdecimal (tl r)
      then Inr (PyFloat (of_nat (dec_value ip) + of_nat (dec_value (tl r)) / 10 ^ length (tl r)))
      else Inl ValueError)"

text \<open>\<open>xs[0]\<close> raises IndexError on an empty list.\<close>

definition index0 :: "'a list \<Rightarrow> error + 'a" where
  "index0 xs = (case xs of [] \<Rightarrow> Inl IndexError | x # _ \<Rightarrow> Inr x)"

text \<open>
  \<open>d.get(key, default)\<close> on a field that may be absent, and \<open>x or default\<close> on a list
  that may be absent or empty.
\<close>

definition dict_get :: "'a option \<Rightarrow> 'a \<Rightarrow> 'a" where
  "dict_get entry dflt = (case entry of None \<Rightarrow> dflt | Some v \<Rightarrow> v)"

definition list_or :: "'a list option \<Rightarrow> 'a list \<Rightarrow> 'a list" where
  "list_or entry dflt =
     (case entry of None \<Rightarrow> dflt | Some xs \<Rightarrow> if xs = [] then dflt else xs)"

section \<open>The regular expressions\<close>

text \<open>
  \<open>re.sub(r"\(.*?\)", "", s)\<close>: from an opening parenthesis, the lazy \<open>.*?\<close> stops at
  the first closing parenthesis and cannot cross a newline. \<open>find_close\<close> returns the
  text after that closing parenthesis.
\<close>

fun find_close :: "string \<Rightarrow> string option" where
  "find_close [] = None"
| "find_close (c # cs) =
     (if c = CHR '')'' then Some cs else if c = CHR 0x0A then None else find_close cs)"

lemma find_close_length: "find_close cs = Some r \<Longrightarrow> length r < Suc (length cs)"
  by (induction cs) (auto split: if_splits)

function remove_parens :: "string \<Rightarrow> string" where
  "remove_parens [] = []"
| "remove_parens (c # cs) =
     (if c = CHR ''(''
      then (case find_close cs of
              Some r \<Rightarrow> remove_parens r
            | None \<Rightarrow> c # remove_parens cs)
      else c # remove_parens cs)"
  by pat_completeness auto
termination
  by (relation "measure length") (auto dest: find_close_length)

text \<open>
  \<open>SIZE_PATTERN.match(s)\<close>, the pattern \<open>^\d+x\d+\<close> with \<open>re.I\<close>: digits, an x of
  either case, a digit.
\<close>

definition SIZE_PATTERN_match :: "string \<Rightarrow> bool" where
  "SIZE_PATTERN_match s =
     (takeWhile isdecimal s \<noteq> [] \<and>
      (case dropWhile isdecimal s of
         c # d # _ \<Rightarrow> chr_lower c = CHR ''x'' \<and> isdecimal d
       | _ \<Rightarrow> False))"

text \<open>
  \<open>VERSION_PATTERN.match(s)\<close>, the pattern \<open>^(v\d+|pro|plus|m)$\<close> with \<open>re.I\<close>. The
  \<open>$\<close> also matches before one final newline.
\<close>

definition VERSION_PATTERN_match :: "string \<Rightarrow> bool" where
  "VERSION_PATTERN_match s =
     (let t = lower (if s \<noteq> [] \<and> last s = CHR 0x0A then butlast s else s) in
      (case t of
         c # ds \<Rightarrow> c = CHR ''v'' \<and> ds \<noteq> [] \<and> list_all isdecimal ds
       | [] \<Rightarrow> False) \<or>
      t = ''pro'' \<or> t = ''plus'' \<or> t = ''m'')"

text \<open>
  \<open>MM_PATTERN\<close> is \<open>(\d{2}(?:\.\d)?)\s*mm\<close> with \<open>re.I\<close>. \<open>mm_tail\<close> is \<open>\s*mm\<close> at
  the start of a text; \<open>MM_PATTERN_match\<close> tries the pattern at the start of a text,
  the optional fraction first, and returns group 1; \<open>MM_PATTERN_search\<close> is
  \<open>MM_PATTERN.search\<close>, the leftmost match.
\<close>

definition mm_tail :: "string \<Rightarrow> bool" where
  "mm_tail s =
     (case dropWhile isspace s of
        a # b # _ \<Rightarrow> chr_lower a = CHR ''m'' \<and> chr_lower b = CHR ''m''
      | _ \<Rightarrow> False)"

definition MM_PATTERN_match :: "string \<Rightarrow> string option" where
  "MM_PATTERN_match s =
     (case s of
        a # b # r \<Rightarrow>
          if isdecimal a \<and> isdecimal b then
            (case r of
               p # d # r' \<Rightarrow>
                 if p = CHR ''.'' \<and> isdecimal d \<and> mm_tail r' then Some [a, b, p, d]
                 else if mm_tail r then Some [a, b] else None
             | _ \<Rightarrow> if mm_tail r then Some [a, b] else None)
          else None
      | _ \<Rightarrow> None)"

fun MM_PATTERN_search :: "string \<Rightarrow> string option" where
  "MM_PATTERN_search [] = None"
| "MM_PATTERN_search (c # cs) =
     (case MM_PATTERN_match (c # cs) of
        Some g \<Rightarrow> Some g
      | None \<Rightarrow> MM_PATTERN_search cs)"

text \<open>
  \<open>NXN_PATTERN\<close> is \<open>\b(\d)[x\<times>](\d)\b\<close> with \<open>re.I\<close>; the multiplication sign is
  U+00D7. \<open>prev\<close> is the character before the position tried (\<open>None\<close> at the start of
  the text): both digits are word characters, so each \<open>\b\<close> asks for a neighbour that
  is not one, or for the end of the text. The result is groups 1 and 2 of the leftmost
  match.
\<close>

definition NXN_PATTERN_match :: "char option \<Rightarrow> string \<Rightarrow> (char \<times> char) option" where
  "NXN_PATTERN_match prev s =
     (case s of
        a # x # b # r \<Rightarrow>
          if (case prev of None \<Rightarrow> True | Some p \<Rightarrow> \<not> isword p) \<and>
             isdecimal a \<and> (chr_lower x = CHR ''x'' \<or> x = CHR 0xD7) \<and> isdecimal b \<and>
             (case r of [] \<Rightarrow> True | n # _ \<Rightarrow> \<not> isword n)
          then Some (a, b) else None
      | _ \<Rightarrow> None)"

fun NXN_PATTERN_search :: "char option \<Rightarrow> string \<Rightarrow> (char \<times> char) option" where
  "NXN_PATTERN_search prev [] = None"
| "NXN_PATTERN_search prev (c # cs) =
     (case NXN_PATTERN_match prev (c # cs) of
        Some g \<Rightarrow> Some g
      | None \<Rightarrow> NXN_PATTERN_search (Some c) cs)"

section \<open>The listings\<close>

text \<open>
  A listing is the dict read from a store's JSON file, with the fields and types of the
  storefront catalogue. Every field may be absent: \<open>None\<close> is a key that is not there.
  For \<open>body_html\<close>, \<open>images\<close> and \<open>featured_image\<close> it is also a key holding
  \<open>null\<close>: the code reads these three through \<open>or\<close> or a comparison with \<open>None\<close>
  and treats \<open>null\<close> as it treats absence. For every other key a \<open>null\<close> is not a
  value of the field's type and these records do not hold it; \<open>raw_product\<close> below
  does.
\<close>

record image =
  src :: "string option"

record variant =
  vtitle :: "string option"
  grams :: "pynum option"
  available :: "bool option"
  featured_image :: "image option"

record product =
  title :: "string option"
  vendor :: "string option"
  product_type :: "string option"
  tags :: "string list option"
  body_html :: "string option"
  images :: "image list option"
  variants :: "variant list option"
  published_at :: "string option"

text \<open>
  The listing as the JSON file gives it, where a key can be absent, hold \<open>null\<close>, or
  hold a value. \<open>json_get\<close> is \<open>d.get(key, default)\<close>: the default stands in for an
  absent key only, and a key holding \<open>null\<close> yields Python's \<open>None\<close>.
  \<open>typed_listing\<close> is the listing as the records above hold it; it is the same
  listing when no key holds \<open>null\<close>.
\<close>

datatype 'a json = Absent | Null | Val 'a

record raw_product =
  raw_title :: "string json"
  raw_vendor :: "string json"
  raw_product_type :: "string json"
  raw_tags :: "string list json"
  raw_body_html :: "string json"
  raw_images :: "image list json"
  raw_variants :: "variant list json"
  raw_published_at :: "string json"

definition json_get :: "'a json \<Rightarrow> 'a \<Rightarrow> 'a option" where
  "json_get entry dflt = (case entry of Absent \<Rightarrow> Some dflt | Null \<Rightarrow> None | Val v \<Rightarrow> Some v)"

definition present :: "'a json \<Rightarrow> 'a option" where
  "present entry = (case entry of Absent \<Rightarrow> None | Null \<Rightarrow> None | Val v \<Rightarrow> Some v)"

definition typed_listing :: "raw_product \<Rightarrow> product" where
  "typed_listing pr =
     \<lparr>title = present (raw_title pr),
      vendor = present (raw_vendor pr),
      product_type = present (raw_product_type pr),
      tags = present (raw_tags pr),
      body_html = present (raw_body_html pr),
      images = present (raw_images pr),
      variants = present (raw_variants pr),
      published_at = present (raw_published_at pr)\<rparr>"

section \<open>The configuration tables\<close>

text \<open>
  The sets of the source are lists here, in the order of the source text; the program
  only tests membership in them or asks whether any element passes a test, so neither
  order nor repetition matters. \<open>times_sign\<close> is U+00D7.
\<close>

definition times_sign :: char where
  "times_sign = CHR 0xD7"

definition ILLEGAL_CUBE_TYPES :: "string list" where
  "ILLEGAL_CUBE_TYPES =
     [''Smart Cube'', ''Bluetooth Cube'', ''Motorized Cube'', ''Robot Cube'',
      ''Transparent Cube'', ''Clear Cube'', ''Ice Cube'', ''Mirror Cube'', ''Ghost Cube'',
      ''Axis Cube'', ''Fisher Cube'', ''Barrel Cube'', ''Cuboid'',
      ''2'' @ times_sign # ''2'' @ times_sign # ''3'',
      ''3'' @ times_sign # ''3'' @ times_sign # ''2'',
      ''3'' @ times_sign # ''3'' @ times_sign # ''4'',
      ''3'' @ times_sign # ''3'' @ times_sign # ''5'', ''Bandaged Cube'', ''Mixup Cube'',
      ''Mastermorphix'', ''Pyramorphix'', ''Master Pyraminx'',
      ''8'' @ times_sign # ''8 Cube'', ''9'' @ times_sign # ''9 Cube'',
      ''10'' @ times_sign # ''10 Cube'', ''11'' @ times_sign # ''11 Cube'',
      ''12'' @ times_sign # ''12 Cube'', ''13'' @ times_sign # ''13 Cube'',
      ''15'' @ times_sign # ''15 Cube'', ''17'' @ times_sign # ''17 Cube'',
      ''18'' @ times_sign # ''18 Cube'', ''Kilominx'', ''Gigaminx'', ''Teraminx'',
      ''Petaminx'', ''Square-2'', ''Cubedron'', ''Ivy Cube'', ''Gear Cube'',
      ''Helicopter Cube'', ''Redi Cube'', ''Sudokube'', ''Floppy Cube'', ''Infinity Cube'',
      ''Siamese Cube'']"

definition ILLEGAL_TAGS :: "string list" where
  "ILLEGAL_TAGS =
     [''smart'', ''bluetooth'', ''wifi'', ''wi-fi'', ''wireless'', ''app'', ''app-enabled'',
      ''connected'', ''cloud'', ''iot'', ''sensor'', ''sensors'', ''gyroscope'', ''gyro'',
      ''accelerometer'', ''imu'', ''magnetometer'', ''cpu'', ''chip'', ''pcb'', ''display'',
      ''screen'', ''lcd'', ''oled'', ''led'', ''light'', ''lights'', ''rgb'', ''neon'',
      ''matrix'', ''battery'', ''rechargeable'', ''usb'', ''type-c'', ''charging'',
      ''lithium'', ''li-ion'', ''charger'', ''power'', ''motor'', ''motorized'', ''auto'',
      ''auto-turn'', ''autosolve'', ''self-turning'', ''self-solving'', ''robotic'',
      ''robot'', ''servo'', ''camera'', ''microphone'', ''speaker'', ''voice'', ''sound'',
      ''buzzer'', ''transparent'', ''clear'', ''see-through'', ''crystal'', ''acrylic'',
      ''glass'', ''timer'', ''hud'', ''projector'', ''hologram'']"

text \<open>
  One entry of \<open>SKIP_PRODUCT_TYPES\<close> in the source, "pillow" with U+200B after "pill",
  holds a code point above U+00FF. No string of this model contains it, so it can never
  be a substring of a product type and is left out. The adjacent literals
  \<open>"Lubricant" "set"\<close> of the source are one string.
\<close>

definition SKIP_PRODUCT_TYPES :: "string list" where
  "SKIP_PRODUCT_TYPES =
     [''accessories'', ''accessories bundle'', ''apparel - clearance'', ''after sale'',
      ''beanie'', ''blanket'', ''book'', ''bundle'', ''burr puzzle'', ''christmas'',
      ''coaching service'', ''competitions'', ''cube cover'', ''display case'',
      ''display time'', ''diecast model'', ''diy'', ''diy kits'', ''educational toy'',
      ''flashcards'', ''fidget'', ''fidget cube'', ''hat'', ''hoodie'', ''hardware'',
      ''hobby tools'', ''jacket'', ''jigsaw puzzle'', ''lanyard'', ''learning'', ''lube'',
      ''live events'', ''lucky dip'', ''mat'', ''model kit'', ''mug'', ''nanoblock'',
      ''office'', ''other'', ''plastic blade'', ''plushie'', ''remote control car'',
      ''refurbished'', ''syringe'', ''sticker sets'', ''storage bag'', ''storage box'',
      ''stand'', ''shirt'', ''t-shirt'', ''timer'', ''timer accessories'', ''timer skin'',
      ''tools & accessories'', ''training courses'', ''toy'', ''water bottle'',
      ''wooden building block'', ''wooden learning board toy'', ''wooden puzzle'',
      ''halloween'', ''digital'', ''download'', ''test'', ''OPTIONS_HIDDEN_PRODUCT'',
      ''globo'', ''Sliding'', ''Pillow'', ''snake'', ''pin'', ''badge'', ''mouse'', ''pad'',
      ''Locking'', ''Klotski'', ''Ball'', ''Kreativity'', ''LMS'', ''Hanayama'', ''Jibbitz'',
      ''Keychain'', ''Lubricant'', ''Lubricantset'', ''Game'', ''mod'', ''service'',
      ''sticker'', ''Tetra'', ''Lifestyle'', ''Freebie'', ''Decals'', ''Pouch'', ''Logo'',
      ''blindfold'', ''gift'']"

text \<open>\<open>SURFACE_MAP\<close> is a dict, read in insertion order by \<open>.items()\<close>.\<close>

definition SURFACE_MAP :: "(string \<times> string) list" where
  "SURFACE_MAP =
     [(''uv'', ''UV Coated''), (''uvcoated'', ''UV Coated''), (''frosted'', ''Frosted''),
      (''matte'', ''Matte''), (''gloss'', ''Glossy''), (''soft-touch'', ''Soft Touch'')]"

definition DEFAULT_SIZE_MM :: "(string \<times> int) list" where
  "DEFAULT_SIZE_MM =
     [(''2x2'', 50), (''3x3'', 56), (''4x4'', 60), (''5x5'', 62), (''6x6'', 65), (''7x7'', 69)]"

text \<open>
  The source has \<open>NOISE_WORDS = {...}\<close>: a set whose one element is the \<open>Ellipsis\<close>
  object. No string is equal to it, so as a set of strings it is empty. Only the runs on
  concrete titles below depend on this value; the general statements hold for any set
  of noise words, since their proofs never look into it.
\<close>

definition NOISE_WORDS :: "string list" where
  "NOISE_WORDS = []"

section \<open>The filter and the attribute extractors\<close>

definition should_skip :: "product \<Rightarrow> bool" where
  "should_skip pr =
     (let ptype = lower (dict_get (product_type pr) []) in
      list_ex (\<lambda>skip. str_in (lower skip) ptype) SKIP_PRODUCT_TYPES)"

text \<open>
  \<open>should_skip\<close> on the listing as the file gives it. When \<open>product_type\<close> holds
  \<open>null\<close>, \<open>prod.get("product_type", "")\<close> is \<open>None\<close> and \<open>.lower()\<close> raises
  AttributeError.
\<close>

definition should_skip_raw :: "raw_product \<Rightarrow> error + bool" where
  "should_skip_raw pr =
     (case json_get (raw_product_type pr) [] of
        None \<Rightarrow> Inl AttributeError
      | Some s \<Rightarrow>
          Inr (let ptype = lower s in
               list_ex (\<lambda>skip. str_in (lower skip) ptype) SKIP_PRODUCT_TYPES))"

text \<open>The text \<open>detect_size_mm\<close> searches for a measurement.\<close>

definition size_text :: "(string \<Rightarrow> string) \<Rightarrow> product \<Rightarrow> string" where
  "size_text charref pr =
     lower (join '' ''
       ([dict_get (title pr) [], unescape charref (dict_get (body_html pr) [])]
        @ dict_get (tags pr) []
        @ map (\<lambda>v. dict_get (vtitle v) []) (dict_get (variants pr) [])))"

definition detect_size_mm :: "(string \<Rightarrow> string) \<Rightarrow> product \<Rightarrow> error + pynum" where
  "detect_size_mm charref pr =
     (case MM_PATTERN_search (size_text charref pr) of
        Some g \<Rightarrow> py_float g
      | None \<Rightarrow>
          (case NXN_PATTERN_search None (dict_get (title pr) []) of
             Some (a, b) \<Rightarrow>
               (case map_of DEFAULT_SIZE_MM ([a] @ ''x'' @ [b]) of
                  Some n \<Rightarrow> Inr (PyInt n)
                | None \<Rightarrow> Inr (PyFloat 56))
           | None \<Rightarrow> Inr (PyFloat 56)))"

text \<open>The loop of \<open>extract_series_name\<close>: words are kept until the first one that breaks.\<close>

fun series_words :: "string list \<Rightarrow> string list" where
  "series_words [] = []"
| "series_words (w # ws) =
     (let lw = lower w in
      if SIZE_PATTERN_match lw \<or> VERSION_PATTERN_match lw \<or> lw \<in> set NOISE_WORDS then []
      else w # series_words ws)"

definition extract_series_name :: "string \<Rightarrow> string" where
  "extract_series_name t =
     (let clean = remove_parens t;
          clean = split1_head '' -'' clean
      in strip (join '' '' (series_words (split_ws clean))))"

text \<open>
  \<open>detect_surface_finish\<close>: the inner loop over \<open>SURFACE_MAP.items()\<close> is \<open>find\<close>, the
  outer loop over the tags returns at the first tag with a keyword.
\<close>

definition surface_key :: "string \<Rightarrow> string" where
  "surface_key tag = replace (replace (lower tag) ''_'' ''-'') '' '' []"

fun detect_surface_finish :: "string list \<Rightarrow> string option" where
  "detect_surface_finish [] = None"
| "detect_surface_finish (tag # rest) =
     (case find (\<lambda>(kw, name). str_in kw (surface_key tag)) SURFACE_MAP of
        Some (kw, name) \<Rightarrow> Some name
      | None \<Rightarrow> detect_surface_finish rest)"

definition is_stickered :: "product \<Rightarrow> bool" where
  "is_stickered pr =
     (let text = lower (join '' ''
            (dict_get (tags pr) [] @ map (\<lambda>v. dict_get (vtitle v) []) (dict_get (variants pr) [])))
      in if str_in ''stickerless'' text then False
         else if str_in ''stickered'' text \<or> list_ex (\<lambda>k. str_in k text) [''black'', ''primary'']
         then True
         else False)"

section \<open>The canonical row\<close>

text \<open>
  A row is the dict built by \<open>normalize_product\<close>. Every row has every key below but
  \<open>related_to\<close>, which only Trim rows have (\<open>None\<close>: the key is absent); in
  particular every row has a slug, so \<open>r["slug"]\<close> finds its key.
  \<open>image_url\<close> and \<open>surface_finish\<close> may hold Python's \<open>None\<close>.
\<close>

record row =
  series :: string
  model :: string
  slug :: string
  brand :: string
  row_type :: string
  magnetic :: bool
  maglev :: bool
  smart :: bool
  wca_legal :: bool
  image_url :: "string option"
  discontinued :: bool
  surface_finish :: "string option"
  stickered :: bool
  release_date :: string
  size_mm :: pynum
  weight :: pynum
  rating :: pynum
  row_notes :: string
  status :: string
  submitted_by :: string
  version_type :: string
  version_name :: string
  related_to :: "string option"

section \<open>Deduplication\<close>

text \<open>
  \<open>deduplicate_rows\<close> fills an \<open>OrderedDict\<close> keyed by \<open>r["slug"]\<close>: an association
  list in insertion order. \<open>key not in unique\<close> is \<open>map_of unique key = None\<close>,
  \<open>unique[key] = r\<close> for a new key appends, and \<open>list(unique.values())\<close> reads the
  values in insertion order.
\<close>

fun dedup_loop :: "(string \<times> row) list \<Rightarrow> row list \<Rightarrow> (string \<times> row) list" where
  "dedup_loop unique [] = unique"
| "dedup_loop unique (r # rows) =
     (let key = slug r in
      if map_of unique key = None then dedup_loop (unique @ [(key, r)]) rows
      else dedup_loop unique rows)"

definition deduplicate_rows :: "row list \<Rightarrow> row list" where
  "deduplicate_rows rows = map snd (dedup_loop [] rows)"

text \<open>
  The policy in the specification's words: the first row of each slug, in the order of
  first appearance; every later row of that slug is dropped.
\<close>

fun first_per_slug :: "row list \<Rightarrow> row list" where
  "first_per_slug [] = []"
| "first_per_slug (r # rows) = r # first_per_slug (filter (\<lambda>x. slug x \<noteq> slug r) rows)"

section \<open>The row expander\<close>

text \<open>
  \<open>slugify\<close> is the function of the python-slugify package, taken as a parameter. The
  dict literal of \<open>base\<close> is evaluated in key order, so the image is read before the
  size is detected.
\<close>

definition base_row :: "(string \<Rightarrow> string) \<Rightarrow> (string \<Rightarrow> string) \<Rightarrow> product \<Rightarrow> error + row" where
  "base_row slugify charref pr =
     (let tgs = map lower (dict_get (tags pr) []);
          t = dict_get (title pr) []
      in case index0 (list_or (images pr) [\<lparr>src = None\<rparr>]) of
           Inl e \<Rightarrow> Inl e
         | Inr img \<Rightarrow>
             (case detect_size_mm charref pr of
                Inl e \<Rightarrow> Inl e
              | Inr sz \<Rightarrow>
                  Inr \<lparr>series = extract_series_name t,
                       model = strip (replace t (extract_series_name t) []),
                       slug = slugify (extract_series_name t @ replace t (extract_series_name t) []),
                       brand = dict_get (vendor pr) [],
                       row_type = dict_get (product_type pr) [],
                       magnetic = (''magnetic'' \<in> set tgs),
                       maglev = list_ex (\<lambda>tag. str_in ''maglev'' tag) tgs,
                       smart = (''bluetooth'' \<in> set tgs),
                       wca_legal = (\<not> list_ex (\<lambda>tag. lower tag \<in> set ILLEGAL_TAGS) tgs \<and>
                                    dict_get (product_type pr) [] \<notin> set ILLEGAL_CUBE_TYPES),
                       image_url = Some (split1_head ''?'' (dict_get (src img) [])),
                       discontinued =
                         (\<not> list_ex (\<lambda>v. dict_get (available v) True) (dict_get (variants pr) [])),
                       surface_finish = detect_surface_finish tgs,
                       stickered = is_stickered pr,
                       release_date = take 10 (dict_get (published_at pr) []),
                       size_mm = sz,
                       weight = PyInt 0,
                       rating = PyInt 0,
                       row_notes = [],
                       status = ''Pending'',
                       submitted_by = ''CubeIndex'',
                       version_type = ''Base'',
                       version_name = [],
                       related_to = None\<rparr>))"

text \<open>
  The body of the loop over the variants. \<open>v["featured_image"]\<close> raises KeyError on a
  missing key; \<open>.get("src")\<close> gives \<open>None\<close> when the image has no \<open>src\<close>.
\<close>

definition trim_row :: "(string \<Rightarrow> string) \<Rightarrow> row \<Rightarrow> variant \<Rightarrow> error + row" where
  "trim_row slugify base v =
     (let row = base;
          row = row\<lparr>weight := dict_get (grams v) (PyInt 0)\<rparr>;
          row = row\<lparr>related_to := Some (slug row)\<rparr>;
          row = row\<lparr>slug := slugify (slug row @ '' '' @ dict_get (vtitle v) [])\<rparr>;
          row = row\<lparr>version_type := ''Trim''\<rparr>;
          row = row\<lparr>version_name := dict_get (vtitle v) []\<rparr>
      in if featured_image v \<noteq> None
         then (case featured_image v of
                 None \<Rightarrow> Inl KeyError
               | Some img \<Rightarrow> Inr (row\<lparr>image_url := src img\<rparr>))
         else Inr row)"

fun trim_loop :: "(string \<Rightarrow> string) \<Rightarrow> row \<Rightarrow> row list \<Rightarrow> variant list \<Rightarrow> error + row list" where
  "trim_loop slugify base rows [] = Inr rows"
| "trim_loop slugify base rows (v # vs) =
     (case trim_row slugify base v of
        Inl e \<Rightarrow> Inl e
      | Inr row \<Rightarrow> trim_loop slugify base (rows @ [row]) vs)"

definition normalize_product ::
  "(string \<Rightarrow> string) \<Rightarrow> (string \<Rightarrow> string) \<Rightarrow> product \<Rightarrow> error + row list" where
  "normalize_product slugify charref pr =
     (case base_row slugify charref pr of
        Inl e \<Rightarrow> Inl e
      | Inr base \<Rightarrow>
          (let vs = list_or (variants pr) [];
               rows = [base]
           in if vs \<noteq> [] then trim_loop slugify base rows vs else Inr rows))"

section \<open>The pipeline driver\<close>

text \<open>
  \<open>main\<close> reads the files in sorted order; \<open>files\<close> is the list of their contents in
  that order. The result is the row list that is uploaded and dumped, \<open>None\<close> when
  \<open>main\<close> returns early because no row was collected.
\<close>

fun scan_products ::
  "(string \<Rightarrow> string) \<Rightarrow> (string \<Rightarrow> string) \<Rightarrow> row list \<Rightarrow> product list \<Rightarrow> error + row list" where
  "scan_products slugify charref all_rows [] = Inr all_rows"
| "scan_products slugify charref all_rows (pr # products) =
     (if should_skip pr then scan_products slugify charref all_rows products
      else (case normalize_product slugify charref pr of
              Inl e \<Rightarrow> Inl e
            | Inr rows \<Rightarrow> scan_products slugify charref (all_rows @ rows) products))"

fun scan_files ::
  "(string \<Rightarrow> string) \<Rightarrow> (string \<Rightarrow> string) \<Rightarrow> row list \<Rightarrow> product list list \<Rightarrow> error + row list" where
  "scan_files slugify charref all_rows [] = Inr all_rows"
| "scan_files slugify charref all_rows (products # files) =
     (case scan_products slugify charref all_rows products of
        Inl e \<Rightarrow> Inl e
      | Inr all_rows' \<Rightarrow> scan_files slugify charref all_rows' files)"

definition main ::
  "(string \<Rightarrow> string) \<Rightarrow> (string \<Rightarrow> string) \<Rightarrow> product list list \<Rightarrow> error + row list option" where
  "main slugify charref files =
     (case scan_files slugify charref [] files of
        Inl e \<Rightarrow> Inl e
      | Inr all_rows \<Rightarrow>
          if all_rows = [] then Inr None else Inr (Some (deduplicate_rows all_rows)))"

section \<open>Concrete inputs\<close>

text \<open>Rows for concrete runs: every field blank but the slug and the version name.\<close>

definition example_row :: "string \<Rightarrow> string \<Rightarrow> row" where
  "example_row s v =
     \<lparr>series = [], model = [], slug = s, brand = [], row_type = [], magnetic = False,
      maglev = False, smart = False, wca_legal = True, image_url = Some [],
      discontinued = False, surface_finish = None, stickered = False, release_date = [],
      size_mm = PyFloat 56, weight = PyInt 0, rating = PyInt 0, row_notes = [],
      status = ''Pending'', submitted_by = ''CubeIndex'', version_type = ''Base'',
      version_name = v, related_to = None\<rparr>"

definition blank_product :: product where
  "blank_product =
     \<lparr>title = None, vendor = None, product_type = None, tags = None, body_html = None,
      images = None, variants = None, published_at = None\<rparr>"

definition blank_raw_product :: raw_product where
  "blank_raw_product =
     \<lparr>raw_title = Absent, raw_vendor = Absent, raw_product_type = Absent, raw_tags = Absent,
      raw_body_html = Absent, raw_images = Absent, raw_variants = Absent,
      raw_published_at = Absent\<rparr>"

definition blank_variant :: variant where
  "blank_variant = \<lparr>vtitle = None, grams = None, available = None, featured_image = None\<rparr>"

section \<open>The rows of a listing in closed form\<close>

text \<open>
  The Trim row of one variant, as the loop body builds it when nothing is raised.
\<close>

definition trim_of :: "(string \<Rightarrow> string) \<Rightarrow> row \<Rightarrow> variant \<Rightarrow> row" where
  "trim_of slugify base v =
     base\<lparr>weight := dict_get (grams v) (PyInt 0),
          related_to := Some (slug base),
          slug := slugify (slug base @ '' '' @ dict_get (vtitle v) []),
          version_type := ''Trim'',
          version_name := dict_get (vtitle v) [],
          image_url := (case featured_image v of None \<Rightarrow> image_url base | Some img \<Rightarrow> src img)\<rparr>"

section \<open>The size patterns as texts\<close>

text \<open>
  What \<open>MM_PATTERN\<close> accepts at the start of a text \<open>s\<close>: two decimal digits \<open>a\<close>
  and \<open>b\<close>, then possibly a point and one decimal digit \<open>d\<close>, then any white space,
  then "mm" in either case. \<open>mm_value\<close> is the number the digits denote.
\<close>

definition mm_at :: "char \<Rightarrow> char \<Rightarrow> char option \<Rightarrow> string \<Rightarrow> bool" where
  "mm_at a b d s =
     (\<exists>ws m1 m2 rest.
        s = a # b # (case d of None \<Rightarrow> [] | Some c \<Rightarrow> [CHR ''.'', c]) @ ws @ m1 # m2 # rest \<and>
        isdecimal a \<and> isdecimal b \<and> (case d of None \<Rightarrow> True | Some c \<Rightarrow> isdecimal c) \<and>
        list_all isspace ws \<and>
        (m1 = CHR ''m'' \<or> m1 = CHR ''M'') \<and> (m2 = CHR ''m'' \<or> m2 = CHR ''M''))"

definition mm_value :: "char \<Rightarrow> char \<Rightarrow> char option \<Rightarrow> rat" where
  "mm_value a b d =
     of_nat (10 * digit_val a + digit_val b) +
     (case d of None \<Rightarrow> 0 | Some c \<Rightarrow> of_nat (digit_val c) / 10)"

text \<open>
  What \<open>NXN_PATTERN\<close> accepts at position \<open>k\<close> of a text \<open>s\<close>: a decimal digit
  \<open>a\<close>, one of x, X and the multiplication sign, a decimal digit \<open>b\<close>, with no word
  character directly before or directly after.
\<close>

definition nxn_at :: "string \<Rightarrow> nat \<Rightarrow> char \<Rightarrow> char \<Rightarrow> bool" where
  "nxn_at s k a b =
     (\<exists>x. k + 2 < length s \<and> s ! k = a \<and> s ! (k + 1) = x \<and> s ! (k + 2) = b \<and>
        isdecimal a \<and> isdecimal b \<and>
        (x = CHR ''x'' \<or> x = CHR ''X'' \<or> x = times_sign) \<and>
        (k = 0 \<or> \<not> isword (s ! (k - 1))) \<and>
        (k + 3 = length s \<or> \<not> isword (s ! (k + 3))))"

text \<open>
  The leftmost position at which a matcher succeeds; the matcher sees the character
  before the position. Both searches are instances of it.
\<close>

fun leftmost :: "(char option \<Rightarrow> string \<Rightarrow> 'a option) \<Rightarrow> char option \<Rightarrow> string \<Rightarrow> 'a option" where
  "leftmost f prev [] = None"
| "leftmost f prev (c # cs) =
     (case f prev (c # cs) of Some g \<Rightarrow> Some g | None \<Rightarrow> leftmost f (Some c) cs)"

section \<open>The pipeline in closed form\<close>

text \<open>
  The rows of one listing when nothing is raised, and the pipeline as the specification
  describes it: filter each file's listings, normalize the accepted ones, collect the
  rows of all files in order, deduplicate once.
\<close>

definition listing_rows :: "(string \<Rightarrow> string) \<Rightarrow> (string \<Rightarrow> string) \<Rightarrow> product \<Rightarrow> row list" where
  "listing_rows slugify charref pr =
     (case normalize_product slugify charref pr of Inr rows \<Rightarrow> rows | Inl e \<Rightarrow> [])"

definition pipeline :: "(string \<Rightarrow> string) \<Rightarrow> (string \<Rightarrow> string) \<Rightarrow> product list list \<Rightarrow> row list" where
  "pipeline slugify charref files =
     deduplicate_rows
       (concat (map (\<lambda>products.
          concat (map (listing_rows slugify charref) (filter (\<lambda>pr. \<not> should_skip pr) products)))
        files))"

section \<open>The listing with its defaults written in\<close>

text \<open>
  What the specification calls substituting safe defaults: every absent field of a
  listing and of its variants holds the default the code passes to \<open>.get\<close>. A
  variant's \<open>featured_image\<close> has no default: when it is absent the row keeps the
  listing's image.
\<close>

definition variant_defaults :: "variant \<Rightarrow> variant" where
  "variant_defaults v =
     \<lparr>vtitle = Some (dict_get (vtitle v) []),
      grams = Some (dict_get (grams v) (PyInt 0)),
      available = Some (dict_get (available v) True),
      featured_image = featured_image v\<rparr>"

definition with_defaults :: "product \<Rightarrow> product" where
  "with_defaults pr =
     \<lparr>title = Some (dict_get (title pr) []),
      vendor = Some (dict_get (vendor pr) []),
      product_type = Some (dict_get (product_type pr) []),
      tags = Some (dict_get (tags pr) []),
      body_html = Some (dict_get (body_html pr) []),
      images = Some (dict_get (images pr) []),
      variants = Some (map variant_defaults (dict_get (variants pr) [])),
      published_at = Some (dict_get (published_at pr) [])\<rparr>"

section \<open>The specification's wording of two extractors\<close>

text \<open>
  The specification says \<open>detect_surface_finish\<close> normalizes a tag by lower-casing it
  and removing the separators \<open>_\<close> and space; this is the detector with that
  normalization.
\<close>

definition surface_key_spec :: "string \<Rightarrow> string" where
  "surface_key_spec tag = filter (\<lambda>c. c \<noteq> CHR ''_'' \<and> c \<noteq> CHR '' '') (lower tag)"

fun detect_surface_finish_spec :: "string list \<Rightarrow> string option" where
  "detect_surface_finish_spec [] = None"
| "detect_surface_finish_spec (tag # rest) =
     (case find (\<lambda>(kw, name). str_in kw (surface_key_spec tag)) SURFACE_MAP of
        Some (kw, name) \<Rightarrow> Some name
      | None \<Rightarrow> detect_surface_finish_spec rest)"

text \<open>
  The specification says the model is the title with the series removed once:
  \<open>remove_first sub s\<close> removes the first occurrence of \<open>sub\<close> from \<open>s\<close>.
\<close>

fun remove_first :: "string \<Rightarrow> string \<Rightarrow> string" where
  "remove_first sub [] = []"
| "remove_first sub (c # cs) =
     (if prefix sub (c # cs) then drop (length sub) (c # cs) else c # remove_first sub cs)"

section \<open>Properties of deduplication\<close>

lemma dedup_loop_keys:
  "\<forall>(k, v) \<in> set unique. slug v = k \<Longrightarrow>
   map snd (dedup_loop unique rows) =
   map snd unique @ first_per_slug (filter (\<lambda>x. slug x \<notin> fst ` set unique) rows)"
proof (induction rows arbitrary: unique)
  case Nil
  then show ?case by simp
next
  case (Cons r rows)
  show ?case
  proof (cases "map_of unique (slug r) = None")
    case True
    then have notin: "slug r \<notin> fst ` set unique"
      by (simp add: map_of_eq_None_iff)
    have inv: "\<forall>(k, v) \<in> set (unique @ [(slug r, r)]). slug v = k"
      using Cons.prems by auto
    have flt: "filter (\<lambda>x. slug x \<notin> fst ` set (unique @ [(slug r, r)])) rows =
               filter (\<lambda>x. slug x \<noteq> slug r) (filter (\<lambda>x. slug x \<notin> fst ` set unique) rows)"
      by (induction rows) auto
    have "map snd (dedup_loop unique (r # rows)) =
          map snd (dedup_loop (unique @ [(slug r, r)]) rows)"
      using True by simp
    also have "\<dots> = map snd (unique @ [(slug r, r)]) @
          first_per_slug (filter (\<lambda>x. slug x \<notin> fst ` set (unique @ [(slug r, r)])) rows)"
      by (rule Cons.IH [OF inv])
    also have "\<dots> = map snd unique @ r #
          first_per_slug (filter (\<lambda>x. slug x \<noteq> slug r)
            (filter (\<lambda>x. slug x \<notin> fst ` set unique) rows))"
      unfolding flt by simp
    also have "\<dots> = map snd unique @
          first_per_slug (filter (\<lambda>x. slug x \<notin> fst ` set unique) (r # rows))"
      using notin by simp
    finally show ?thesis .
  next
    case False
    then obtain y where y: "map_of unique (slug r) = Some y" by auto
    then have "slug r \<in> fst ` set unique"
      by (metis map_of_eq_None_iff option.distinct(1))
    with y Cons.IH [OF Cons.prems] show ?thesis by simp
  qed
qed

lemma deduplicate_rows_first_per_slug: "deduplicate_rows rows = first_per_slug rows"
  using dedup_loop_keys [of "[]" rows] by (simp add: deduplicate_rows_def)

lemma set_first_per_slug_subset: "set (first_per_slug rows) \<subseteq> set rows"
  by (induction rows rule: first_per_slug.induct) auto

lemma slugs_first_per_slug: "slug ` set (first_per_slug rows) = slug ` set rows"
proof (induction rows rule: first_per_slug.induct)
  case 1
  show ?case by simp
next
  case (2 r rows)
  have "slug ` set (filter (\<lambda>x. slug x \<noteq> slug r) rows) = slug ` set rows - {slug r}"
    by auto
  with 2 show ?case by auto
qed

lemma distinct_first_per_slug: "distinct (map slug (first_per_slug rows))"
proof (induction rows rule: first_per_slug.induct)
  case 1
  show ?case by simp
next
  case (2 r rows)
  have "slug r \<notin> slug ` set (filter (\<lambda>x. slug x \<noteq> slug r) rows)" by auto
  then have "slug r \<notin> slug ` set (first_per_slug (filter (\<lambda>x. slug x \<noteq> slug r) rows))"
    using slugs_first_per_slug by metis
  with 2 show ?case by simp
qed

lemma find_filter_other:
  "k \<noteq> k' \<Longrightarrow> find (\<lambda>x. slug x = k) (filter (\<lambda>x. slug x \<noteq> k') rows) = find (\<lambda>x. slug x = k) rows"
  by (induction rows) auto

lemma first_per_slug_find:
  "r \<in> set (first_per_slug rows) \<Longrightarrow> find (\<lambda>x. slug x = slug r) rows = Some r"
proof (induction rows rule: first_per_slug.induct)
  case 1
  then show ?case by simp
next
  case (2 q rows)
  show ?case
  proof (cases "r = q")
    case True
    then show ?thesis by simp
  next
    case False
    with 2 have mem: "r \<in> set (first_per_slug (filter (\<lambda>x. slug x \<noteq> slug q) rows))"
      by simp
    then have "r \<in> set (filter (\<lambda>x. slug x \<noteq> slug q) rows)"
      using set_first_per_slug_subset by blast
    then have ne: "slug r \<noteq> slug q" by simp
    from 2 mem have "find (\<lambda>x. slug x = slug r) (filter (\<lambda>x. slug x \<noteq> slug q) rows) = Some r"
      by simp
    with ne show ?thesis by (simp add: find_filter_other)
  qed
qed

lemma subseq_first_per_slug: "subseq (first_per_slug rows) rows"
proof (induction rows rule: first_per_slug.induct)
  case 1
  show ?case by simp
next
  case (2 r rows)
  have "subseq (filter (\<lambda>x. slug x \<noteq> slug r) rows) rows" by simp
  with 2 have "subseq (first_per_slug (filter (\<lambda>x. slug x \<noteq> slug r) rows)) rows"
    using subseq_order.order_trans by blast
  then show ?case by simp
qed

lemma first_per_slug_fixed:
  "distinct (map slug rows) \<Longrightarrow> first_per_slug rows = rows"
proof (induction rows)
  case Nil
  show ?case by simp
next
  case (Cons r rows)
  from Cons.prems have "\<forall>x \<in> set rows. slug x \<noteq> slug r"
    by (metis distinct.simps(2) image_eqI list.simps(9) set_map)
  then have "filter (\<lambda>x. slug x \<noteq> slug r) rows = rows"
    by (simp add: filter_id_conv)
  with Cons show ?case by simp
qed

text \<open>
  Claim C1. For every sequence of rows, \<open>deduplicate_rows\<close> returns exactly one row per
  slug: the output is the first-occurring row of each slug in the order of first
  appearance (it is \<open>first_per_slug\<close> of the input, a subsequence of the input in which
  each row is the first input row of its slug), no two output rows share a slug, every
  input slug is still present, and a later row with a colliding slug is dropped.
\<close>

theorem deduplicate_rows_first_wins:
  "deduplicate_rows rows = first_per_slug rows \<and>
   distinct (map slug (deduplicate_rows rows)) \<and>
   slug ` set (deduplicate_rows rows) = slug ` set rows \<and>
   subseq (deduplicate_rows rows) rows \<and>
   (\<forall>r \<in> set (deduplicate_rows rows). find (\<lambda>x. slug x = slug r) rows = Some r) \<and>
   (\<forall>i < length rows. (\<exists>j < i. slug (rows ! j) = slug (rows ! i)) \<longrightarrow>
      find (\<lambda>x. slug x = slug (rows ! i)) (deduplicate_rows rows)
        = find (\<lambda>x. slug x = slug (rows ! i)) rows)"
proof -
  have eq: "deduplicate_rows rows = first_per_slug rows"
    by (rule deduplicate_rows_first_per_slug)
  have fnd: "\<forall>r \<in> set (first_per_slug rows). find (\<lambda>x. slug x = slug r) rows = Some r"
    using first_per_slug_find by blast
  have later: "find (\<lambda>x. slug x = slug (rows ! i)) (first_per_slug rows)
        = find (\<lambda>x. slug x = slug (rows ! i)) rows" if "i < length rows" for i
  proof -
    from that have "slug (rows ! i) \<in> slug ` set (first_per_slug rows)"
      by (simp add: slugs_first_per_slug)
    then obtain r where r: "r \<in> set (first_per_slug rows)" "slug r = slug (rows ! i)"
      by auto
    obtain q where q: "find (\<lambda>x. slug x = slug (rows ! i)) (first_per_slug rows) = Some q"
      using r by (cases "find (\<lambda>x. slug x = slug (rows ! i)) (first_per_slug rows)")
        (auto simp: find_None_iff)
    then have "q \<in> set (first_per_slug rows)" "slug q = slug (rows ! i)"
      by (auto simp: find_Some_iff)
    with fnd q show ?thesis by fastforce
  qed
  show ?thesis
    unfolding eq
    using distinct_first_per_slug slugs_first_per_slug subseq_first_per_slug fnd later
    by blast
qed

theorem deduplicate_rows_first_wins_witness:
  "deduplicate_rows
     [example_row ''gan-356-m'' ''first'', example_row ''x'' [], example_row ''gan-356-m'' ''second'']
   = [example_row ''gan-356-m'' ''first'', example_row ''x'' []]"
proof -
  have "deduplicate_rows
     [example_row ''gan-356-m'' ''first'', example_row ''x'' [], example_row ''gan-356-m'' ''second'']
   = first_per_slug
     [example_row ''gan-356-m'' ''first'', example_row ''x'' [], example_row ''gan-356-m'' ''second'']"
    using deduplicate_rows_first_wins by blast
  then show ?thesis by (simp add: example_row_def)
qed

section \<open>Properties of the string functions\<close>

lemma chr_lower_idem: "chr_lower (chr_lower c) = chr_lower c"
  by (auto simp: chr_lower_def Let_def)

lemma lower_idem: "lower (lower s) = lower s"
  by (simp add: lower_def chr_lower_idem)

section \<open>Nothing is raised\<close>

lemma not_isdecimal_dot: "\<not> isdecimal (CHR ''.'')"
  by (simp add: isdecimal_def)

lemma MM_PATTERN_match_shape:
  "MM_PATTERN_match s = Some g \<Longrightarrow>
   \<exists>a b. isdecimal a \<and> isdecimal b \<and> (g = [a, b] \<or> (\<exists>d. isdecimal d \<and> g = [a, b, CHR ''.'', d]))"
  by (auto simp: MM_PATTERN_match_def split: list.splits if_splits)

lemma MM_PATTERN_search_shape:
  "MM_PATTERN_search s = Some g \<Longrightarrow>
   \<exists>a b. isdecimal a \<and> isdecimal b \<and> (g = [a, b] \<or> (\<exists>d. isdecimal d \<and> g = [a, b, CHR ''.'', d]))"
proof (induction s)
  case Nil
  then show ?case by simp
next
  case (Cons c cs)
  then show ?case
    by (cases "MM_PATTERN_match (c # cs)") (auto dest: MM_PATTERN_match_shape)
qed

lemma py_float_two:
  "isdecimal a \<Longrightarrow> isdecimal b \<Longrightarrow>
   py_float [a, b] = Inr (PyFloat (of_nat (10 * digit_val a + digit_val b)))"
  by (simp add: py_float_def dec_value_def)

lemma py_float_frac:
  "isdecimal a \<Longrightarrow> isdecimal b \<Longrightarrow> isdecimal d \<Longrightarrow>
   py_float [a, b, CHR ''.'', d] =
   Inr (PyFloat (of_nat (10 * digit_val a + digit_val b) + of_nat (digit_val d) / 10))"
  by (simp add: py_float_def dec_value_def not_isdecimal_dot)

lemma detect_size_mm_total: "\<exists>n. detect_size_mm charref pr = Inr n"
proof (cases "MM_PATTERN_search (size_text charref pr)")
  case None
  then show ?thesis
    by (simp add: detect_size_mm_def split: option.splits prod.splits)
next
  case (Some g)
  from MM_PATTERN_search_shape [OF Some] have "\<exists>n. py_float g = Inr n"
    by (auto simp: py_float_two py_float_frac)
  with Some show ?thesis by (simp add: detect_size_mm_def)
qed

lemma index0_list_or: "index0 (list_or x [d]) = Inr (hd (list_or x [d]))"
  by (auto simp: index0_def list_or_def split: option.splits list.splits)

section \<open>Properties of the row expander\<close>

lemma base_row_fields:
  "\<exists>base. base_row slugify charref pr = Inr base \<and>
     series base = extract_series_name (dict_get (title pr) []) \<and>
     model base = strip (replace (dict_get (title pr) []) (extract_series_name (dict_get (title pr) [])) []) \<and>
     slug base = slugify (extract_series_name (dict_get (title pr) []) @
                   replace (dict_get (title pr) []) (extract_series_name (dict_get (title pr) [])) []) \<and>
     brand base = dict_get (vendor pr) [] \<and>
     row_type base = dict_get (product_type pr) [] \<and>
     magnetic base = (''magnetic'' \<in> set (map lower (dict_get (tags pr) []))) \<and>
     maglev base = list_ex (\<lambda>t. str_in ''maglev'' t) (map lower (dict_get (tags pr) [])) \<and>
     smart base = (''bluetooth'' \<in> set (map lower (dict_get (tags pr) []))) \<and>
     wca_legal base = (\<not> list_ex (\<lambda>t. lower t \<in> set ILLEGAL_TAGS) (map lower (dict_get (tags pr) [])) \<and>
                        dict_get (product_type pr) [] \<notin> set ILLEGAL_CUBE_TYPES) \<and>
     image_url base = Some (split1_head ''?'' (dict_get (src (hd (list_or (images pr) [\<lparr>src = None\<rparr>]))) [])) \<and>
     discontinued base = (\<not> list_ex (\<lambda>v. dict_get (available v) True) (dict_get (variants pr) [])) \<and>
     surface_finish base = detect_surface_finish (map lower (dict_get (tags pr) [])) \<and>
     stickered base = is_stickered pr \<and>
     release_date base = take 10 (dict_get (published_at pr) []) \<and>
     detect_size_mm charref pr = Inr (size_mm base) \<and>
     weight base = PyInt 0 \<and> rating base = PyInt 0 \<and> row_notes base = [] \<and>
     status base = ''Pending'' \<and> submitted_by base = ''CubeIndex'' \<and>
     version_type base = ''Base'' \<and> version_name base = [] \<and> related_to base = None"
proof -
  obtain sz where sz: "detect_size_mm charref pr = Inr sz"
    using detect_size_mm_total by blast
  show ?thesis
    by (simp add: base_row_def Let_def index0_list_or sz)
qed

lemma trim_row_Inr: "trim_row slugify base v = Inr (trim_of slugify base v)"
  by (cases "featured_image v") (simp_all add: trim_row_def trim_of_def Let_def)

lemma trim_loop_Inr:
  "trim_loop slugify base rows vs = Inr (rows @ map (trim_of slugify base) vs)"
  by (induction vs arbitrary: rows) (simp_all add: trim_row_Inr)

lemma normalize_product_rows:
  "base_row slugify charref pr = Inr base \<Longrightarrow>
   normalize_product slugify charref pr =
     Inr (base # map (trim_of slugify base) (list_or (variants pr) []))"
  by (simp add: normalize_product_def Let_def trim_loop_Inr)

lemma list_or_Nil: "list_or x [] = dict_get x []"
  by (simp add: list_or_def dict_get_def split: option.splits)

text \<open>
  Claim C2. For every listing with \<open>n \<ge> 1\<close> variants, \<open>normalize_product\<close> returns
  \<open>1 + n\<close> rows: the first has \<open>version_type = "Base"\<close> and an empty
  \<open>version_name\<close>; row \<open>i + 1\<close> belongs to variant \<open>i\<close>, has
  \<open>version_type = "Trim"\<close> (so it is not a Base row), \<open>related_to\<close> equal to the Base
  row's slug, and the variant's title as \<open>version_name\<close>.
\<close>

theorem normalize_product_base_then_trims:
  assumes "variants pr = Some vs" and "vs \<noteq> []"
  shows "\<exists>base trims.
           normalize_product slugify charref pr = Inr (base # trims) \<and>
           length (base # trims) = 1 + length vs \<and>
           version_type base = ''Base'' \<and> version_name base = [] \<and>
           (\<forall>i < length vs.
              version_type (trims ! i) = ''Trim'' \<and>
              version_type (trims ! i) \<noteq> ''Base'' \<and>
              related_to (trims ! i) = Some (slug base) \<and>
              version_name (trims ! i) = dict_get (vtitle (vs ! i)) [])"
proof -
  obtain base where base: "base_row slugify charref pr = Inr base"
    "version_type base = ''Base''" "version_name base = []"
    using base_row_fields [of slugify charref pr] by blast
  have vs: "list_or (variants pr) [] = vs"
    using assms by (simp add: list_or_def)
  let ?trims = "map (trim_of slugify base) vs"
  have "normalize_product slugify charref pr = Inr (base # ?trims)"
    using normalize_product_rows [OF base(1)] vs by simp
  moreover have "\<forall>i < length vs.
              version_type (?trims ! i) = ''Trim'' \<and>
              version_type (?trims ! i) \<noteq> ''Base'' \<and>
              related_to (?trims ! i) = Some (slug base) \<and>
              version_name (?trims ! i) = dict_get (vtitle (vs ! i)) []"
    by (simp add: trim_of_def)
  ultimately show ?thesis
    using base(2,3) by (intro exI [of _ base] exI [of _ ?trims]) simp
qed

theorem normalize_product_base_then_trims_witness:
  "\<exists>base trims.
     normalize_product (\<lambda>s. s) (\<lambda>s. s)
       (blank_product\<lparr>title := Some ''GAN 356 M'',
          variants := Some [blank_variant\<lparr>vtitle := Some ''Black''\<rparr>,
                            blank_variant\<lparr>vtitle := Some ''Stickerless''\<rparr>]\<rparr>)
       = Inr (base # trims) \<and>
     length (base # trims) = 3 \<and>
     version_type base = ''Base'' \<and>
     map version_type trims = [''Trim'', ''Trim''] \<and>
     map related_to trims = [Some (slug base), Some (slug base)] \<and>
     map version_name trims = [''Black'', ''Stickerless'']"
proof -
  let ?vs = "[blank_variant\<lparr>vtitle := Some ''Black''\<rparr>,
              blank_variant\<lparr>vtitle := Some ''Stickerless''\<rparr>]"
  let ?p = "blank_product\<lparr>title := Some ''GAN 356 M'', variants := Some ?vs\<rparr>"
  have v: "variants ?p = Some ?vs" by simp
  have ne: "?vs \<noteq> []" by simp
  from normalize_product_base_then_trims [OF v ne, of "\<lambda>s. s" "\<lambda>s. s"]
  obtain base trims where
    n: "normalize_product (\<lambda>s. s) (\<lambda>s. s) ?p = Inr (base # trims)" and
    len: "length (base # trims) = 1 + length ?vs" and
    b: "version_type base = ''Base''" and
    t: "\<forall>i < length ?vs.
              version_type (trims ! i) = ''Trim'' \<and>
              version_type (trims ! i) \<noteq> ''Base'' \<and>
              related_to (trims ! i) = Some (slug base) \<and>
              version_name (trims ! i) = dict_get (vtitle (?vs ! i)) []"
    by blast
  from len obtain x y where xy: "trims = [x, y]"
    by (auto simp: length_Suc_conv)
  from t have "version_type (trims ! 0) = ''Trim'' \<and> related_to (trims ! 0) = Some (slug base) \<and>
      version_name (trims ! 0) = dict_get (vtitle (?vs ! 0)) []"
    by simp
  moreover from t have "version_type (trims ! 1) = ''Trim'' \<and> related_to (trims ! 1) = Some (slug base) \<and>
      version_name (trims ! 1) = dict_get (vtitle (?vs ! 1)) []"
    by simp
  ultimately show ?thesis
    using n b xy by (simp add: dict_get_def)
qed

lemma normalize_product_total:
  "\<exists>base. base_row slugify charref pr = Inr base \<and>
     normalize_product slugify charref pr =
       Inr (base # map (trim_of slugify base) (list_or (variants pr) []))"
  using base_row_fields [of slugify charref pr] normalize_product_rows by blast

lemma trim_of_flags:
  "wca_legal (trim_of slugify base v) = wca_legal base"
  "smart (trim_of slugify base v) = smart base"
  "magnetic (trim_of slugify base v) = magnetic base"
  "maglev (trim_of slugify base v) = maglev base"
  "discontinued (trim_of slugify base v) = discontinued base"
  by (simp_all add: trim_of_def)

lemma ILLEGAL_TAGS_lower: "e \<in> set ILLEGAL_TAGS \<Longrightarrow> lower e = e"
proof -
  have "list_all (\<lambda>e. lower e = e) ILLEGAL_TAGS" by code_simp
  then show "e \<in> set ILLEGAL_TAGS \<Longrightarrow> lower e = e"
    by (simp add: list_all_iff)
qed

lemma lower_bluetooth: "lower ''bluetooth'' = ''bluetooth''"
  by code_simp

lemma bluetooth_illegal: "''bluetooth'' \<in> set ILLEGAL_TAGS"
  by (simp add: ILLEGAL_TAGS_def)

lemma smart_cube_illegal: "''Smart Cube'' \<in> set ILLEGAL_CUBE_TYPES"
  by (simp add: ILLEGAL_CUBE_TYPES_def)

lemma illegal_tag_iff:
  "list_ex (\<lambda>t. lower t \<in> set ILLEGAL_TAGS) (map lower ts) =
   (\<exists>t \<in> set ts. \<exists>e \<in> set ILLEGAL_TAGS. lower t = lower e)"
  by (auto simp: list_ex_iff lower_idem ILLEGAL_TAGS_lower)

text \<open>
  Claim C3. For every listing, every row of \<open>normalize_product\<close> has
  \<open>wca_legal = False\<close> if and only if the declared product type is an element of
  \<open>ILLEGAL_CUBE_TYPES\<close> (exact match) or some tag is equal, ignoring case, to an
  element of \<open>ILLEGAL_TAGS\<close>. In particular the type "Smart Cube" gives \<open>False\<close>
  whatever the tags are, and a tag "bluetooth" (in any case) gives \<open>False\<close> whatever
  the type is.
\<close>

theorem wca_legal_type_or_tag:
  "\<exists>base trims.
     normalize_product slugify charref pr = Inr (base # trims) \<and>
     (\<forall>r \<in> set (base # trims).
        (\<not> wca_legal r) =
        (dict_get (product_type pr) [] \<in> set ILLEGAL_CUBE_TYPES \<or>
         (\<exists>t \<in> set (dict_get (tags pr) []). \<exists>e \<in> set ILLEGAL_TAGS. lower t = lower e))) \<and>
     (product_type pr = Some ''Smart Cube'' \<longrightarrow> (\<forall>r \<in> set (base # trims). \<not> wca_legal r)) \<and>
     (''bluetooth'' \<in> set (map lower (dict_get (tags pr) [])) \<longrightarrow>
        (\<forall>r \<in> set (base # trims). \<not> wca_legal r))"
proof -
  obtain base where base: "base_row slugify charref pr = Inr base"
    and n: "normalize_product slugify charref pr =
       Inr (base # map (trim_of slugify base) (list_or (variants pr) []))"
    using normalize_product_total by blast
  let ?trims = "map (trim_of slugify base) (list_or (variants pr) [])"
  let ?illegal = "dict_get (product_type pr) [] \<in> set ILLEGAL_CUBE_TYPES \<or>
         (\<exists>t \<in> set (dict_get (tags pr) []). \<exists>e \<in> set ILLEGAL_TAGS. lower t = lower e)"
  have "wca_legal base = (\<not> list_ex (\<lambda>t. lower t \<in> set ILLEGAL_TAGS) (map lower (dict_get (tags pr) [])) \<and>
                        dict_get (product_type pr) [] \<notin> set ILLEGAL_CUBE_TYPES)"
    using base base_row_fields [of slugify charref pr] by auto
  then have b: "(\<not> wca_legal base) = ?illegal"
    unfolding illegal_tag_iff by blast
  have all: "\<forall>r \<in> set (base # ?trims). wca_legal r = wca_legal base"
    by (auto simp: trim_of_flags)
  have 1: "\<forall>r \<in> set (base # ?trims). (\<not> wca_legal r) = ?illegal"
    using all b by blast
  have 2: "product_type pr = Some ''Smart Cube'' \<longrightarrow> ?illegal"
    by (simp add: dict_get_def smart_cube_illegal)
  have 3: "''bluetooth'' \<in> set (map lower (dict_get (tags pr) [])) \<longrightarrow> ?illegal"
  proof
    assume "''bluetooth'' \<in> set (map lower (dict_get (tags pr) []))"
    then obtain t where "t \<in> set (dict_get (tags pr) [])" "lower t = ''bluetooth''"
      by auto
    then have "\<exists>t \<in> set (dict_get (tags pr) []). \<exists>e \<in> set ILLEGAL_TAGS. lower t = lower e"
      using bluetooth_illegal lower_bluetooth by metis
    then show ?illegal ..
  qed
  show ?thesis
    using n 1 2 3 by blast
qed

theorem wca_legal_type_or_tag_witness:
  "(\<exists>base trims.
      normalize_product (\<lambda>s. s) (\<lambda>s. s)
        (blank_product\<lparr>product_type := Some ''Smart Cube''\<rparr>) = Inr (base # trims) \<and>
      \<not> wca_legal base) \<and>
   (\<exists>base trims.
      normalize_product (\<lambda>s. s) (\<lambda>s. s)
        (blank_product\<lparr>product_type := Some ''3x3'', tags := Some [''Magnetic'', ''Bluetooth'']\<rparr>)
        = Inr (base # trims) \<and>
      \<not> wca_legal base)"
proof -
  let ?a = "blank_product\<lparr>product_type := Some ''Smart Cube''\<rparr>"
  let ?b = "blank_product\<lparr>product_type := Some ''3x3'', tags := Some [''Magnetic'', ''Bluetooth'']\<rparr>"
  have a: "product_type ?a = Some ''Smart Cube''" by simp
  have "map lower [''Magnetic'', ''Bluetooth''] = [''magnetic'', ''bluetooth'']"
    by code_simp
  then have b: "''bluetooth'' \<in> set (map lower (dict_get (tags ?b) []))"
    by (simp add: dict_get_def)
  have "\<exists>base trims. normalize_product (\<lambda>s. s) (\<lambda>s. s) ?a = Inr (base # trims) \<and> \<not> wca_legal base"
    using wca_legal_type_or_tag [of "\<lambda>s. s" "\<lambda>s. s" ?a] a by fastforce
  moreover
  have "\<exists>base trims. normalize_product (\<lambda>s. s) (\<lambda>s. s) ?b = Inr (base # trims) \<and> \<not> wca_legal base"
    using wca_legal_type_or_tag [of "\<lambda>s. s" "\<lambda>s. s" ?b] b by fastforce
  ultimately show ?thesis by blast
qed

text \<open>
  Claim C10. For every listing, the Base row's \<open>smart\<close> flag is true if and only if
  the string "bluetooth" is an element of the lower-cased tag list. The product type
  plays no part, and tags whose lower-cased forms are only "smart" or "smart cube" leave
  the flag false. \<open>magnetic\<close> likewise asks for the element "magnetic", while
  \<open>maglev\<close> asks for a tag that contains "maglev" as a substring.
\<close>

theorem smart_only_by_bluetooth_tag:
  "\<exists>base trims.
     normalize_product slugify charref pr = Inr (base # trims) \<and>
     smart base = (''bluetooth'' \<in> set (map lower (dict_get (tags pr) []))) \<and>
     magnetic base = (''magnetic'' \<in> set (map lower (dict_get (tags pr) []))) \<and>
     maglev base = (\<exists>t \<in> set (dict_get (tags pr) []). str_in ''maglev'' (lower t)) \<and>
     (set (map lower (dict_get (tags pr) [])) \<subseteq> {''smart'', ''smart cube''} \<longrightarrow> \<not> smart base)"
proof -
  obtain base where base: "base_row slugify charref pr = Inr base"
    and n: "normalize_product slugify charref pr =
       Inr (base # map (trim_of slugify base) (list_or (variants pr) []))"
    using normalize_product_total by blast
  have f: "smart base = (''bluetooth'' \<in> set (map lower (dict_get (tags pr) [])))"
    "magnetic base = (''magnetic'' \<in> set (map lower (dict_get (tags pr) [])))"
    "maglev base = list_ex (\<lambda>t. str_in ''maglev'' t) (map lower (dict_get (tags pr) []))"
    using base base_row_fields [of slugify charref pr] by auto
  have m: "maglev base = (\<exists>t \<in> set (dict_get (tags pr) []). str_in ''maglev'' (lower t))"
    using f(3) by (simp add: list_ex_iff)
  have s: "set (map lower (dict_get (tags pr) [])) \<subseteq> {''smart'', ''smart cube''} \<longrightarrow> \<not> smart base"
    using f(1) by auto
  show ?thesis
    using n f(1,2) m s by blast
qed

theorem smart_only_by_bluetooth_tag_witness:
  "(\<exists>base trims.
      normalize_product (\<lambda>s. s) (\<lambda>s. s)
        (blank_product\<lparr>product_type := Some ''Smart Cube'', tags := Some [''Smart'', ''smart cube'']\<rparr>)
        = Inr (base # trims) \<and>
      \<not> smart base) \<and>
   (\<exists>base trims.
      normalize_product (\<lambda>s. s) (\<lambda>s. s)
        (blank_product\<lparr>tags := Some [''Bluetooth'']\<rparr>) = Inr (base # trims) \<and>
      smart base)"
proof -
  let ?a = "blank_product\<lparr>product_type := Some ''Smart Cube'', tags := Some [''Smart'', ''smart cube'']\<rparr>"
  let ?b = "blank_product\<lparr>tags := Some [''Bluetooth'']\<rparr>"
  have "map lower [''Smart'', ''smart cube''] = [''smart'', ''smart cube'']"
    by code_simp
  then have a: "set (map lower (dict_get (tags ?a) [])) \<subseteq> {''smart'', ''smart cube''}"
    by (simp add: dict_get_def)
  have "map lower [''Bluetooth''] = [''bluetooth'']"
    by code_simp
  then have b: "''bluetooth'' \<in> set (map lower (dict_get (tags ?b) []))"
    by (simp add: dict_get_def)
  have "\<exists>base trims. normalize_product (\<lambda>s. s) (\<lambda>s. s) ?a = Inr (base # trims) \<and> \<not> smart base"
    using smart_only_by_bluetooth_tag [of "\<lambda>s. s" "\<lambda>s. s" ?a] a by blast
  moreover
  have "\<exists>base trims. normalize_product (\<lambda>s. s) (\<lambda>s. s) ?b = Inr (base # trims) \<and> smart base"
    using smart_only_by_bluetooth_tag [of "\<lambda>s. s" "\<lambda>s. s" ?b] b by blast
  ultimately show ?thesis by blast
qed

text \<open>
  Claim C8, as amended. For every listing, the Base row's \<open>discontinued\<close> flag is true
  if and only if every variant reports \<open>available = false\<close>; a variant without the
  field counts as available. A listing with zero variants is therefore marked
  discontinued.
\<close>

theorem discontinued_iff_all_unavailable:
  "\<exists>base trims.
     normalize_product slugify charref pr = Inr (base # trims) \<and>
     discontinued base = (\<forall>v \<in> set (dict_get (variants pr) []). available v = Some False) \<and>
     (dict_get (variants pr) [] = [] \<longrightarrow> discontinued base)"
proof -
  obtain base where base: "base_row slugify charref pr = Inr base"
    and n: "normalize_product slugify charref pr =
       Inr (base # map (trim_of slugify base) (list_or (variants pr) []))"
    using normalize_product_total by blast
  have av: "(\<not> dict_get (available v) True) = (available v = Some False)" for v
    by (cases "available v") (simp_all add: dict_get_def)
  have "discontinued base = (\<not> list_ex (\<lambda>v. dict_get (available v) True) (dict_get (variants pr) []))"
    using base base_row_fields [of slugify charref pr] by auto
  then have d: "discontinued base = (\<forall>v \<in> set (dict_get (variants pr) []). available v = Some False)"
    by (simp add: list_ex_iff av)
  then have "dict_get (variants pr) [] = [] \<longrightarrow> discontinued base" by simp
  with n d show ?thesis by blast
qed

theorem discontinued_iff_all_unavailable_witness:
  "(\<exists>base trims.
      normalize_product (\<lambda>s. s) (\<lambda>s. s)
        (blank_product\<lparr>variants := Some [blank_variant\<lparr>available := Some False\<rparr>]\<rparr>)
        = Inr (base # trims) \<and>
      discontinued base) \<and>
   (\<exists>base trims.
      normalize_product (\<lambda>s. s) (\<lambda>s. s)
        (blank_product\<lparr>variants := Some [blank_variant\<lparr>available := Some False\<rparr>,
                                            blank_variant\<lparr>available := Some True\<rparr>]\<rparr>)
        = Inr (base # trims) \<and>
      \<not> discontinued base) \<and>
   (\<exists>base trims.
      normalize_product (\<lambda>s. s) (\<lambda>s. s) blank_product = Inr (base # trims) \<and>
      discontinued base)"
proof -
  let ?a = "blank_product\<lparr>variants := Some [blank_variant\<lparr>available := Some False\<rparr>]\<rparr>"
  let ?b = "blank_product\<lparr>variants := Some [blank_variant\<lparr>available := Some False\<rparr>,
                                            blank_variant\<lparr>available := Some True\<rparr>]\<rparr>"
  have "\<exists>base trims. normalize_product (\<lambda>s. s) (\<lambda>s. s) ?a = Inr (base # trims) \<and> discontinued base"
    using discontinued_iff_all_unavailable [of "\<lambda>s. s" "\<lambda>s. s" ?a]
    by (simp add: dict_get_def)
  moreover
  have "\<exists>base trims. normalize_product (\<lambda>s. s) (\<lambda>s. s) ?b = Inr (base # trims) \<and> \<not> discontinued base"
    using discontinued_iff_all_unavailable [of "\<lambda>s. s" "\<lambda>s. s" ?b]
    by (simp add: dict_get_def)
  moreover
  have "\<exists>base trims. normalize_product (\<lambda>s. s) (\<lambda>s. s) blank_product = Inr (base # trims) \<and> discontinued base"
    using discontinued_iff_all_unavailable [of "\<lambda>s. s" "\<lambda>s. s" blank_product]
    by (simp add: dict_get_def blank_product_def)
  ultimately show ?thesis by blast
qed

text \<open>
  Claim C8 as stated fails. A listing with zero variants is marked discontinued, and a
  listing whose only variant has no \<open>available\<close> field is not marked discontinued
  although no variant reports availability true.
\<close>

theorem discontinued_zero_variants_counterexample:
  "normalize_product (\<lambda>s. s) (\<lambda>s. s)
     (blank_product\<lparr>title := Some ''GAN 356 M'', variants := Some []\<rparr>) =
   Inr [\<lparr>series = ''GAN 356'', model = ''M'', slug = ''GAN 356 M'', brand = [], row_type = [],
         magnetic = False, maglev = False, smart = False, wca_legal = True,
         image_url = Some [], discontinued = True, surface_finish = None,
         stickered = False, release_date = [], size_mm = PyFloat 56, weight = PyInt 0,
         rating = PyInt 0, row_notes = [], status = ''Pending'', submitted_by = ''CubeIndex'',
         version_type = ''Base'', version_name = [], related_to = None\<rparr>] \<and>
   map discontinued
     (projr (normalize_product (\<lambda>s. s) (\<lambda>s. s)
        (blank_product\<lparr>title := Some ''GAN 356 M'',
           variants := Some [blank_variant\<lparr>vtitle := Some ''Black''\<rparr>]\<rparr>))) =
   [False, False]"
  by code_simp

section \<open>Absent fields\<close>

lemma dict_get_Some: "dict_get (Some v) d = v"
  by (simp add: dict_get_def)

lemma list_or_Some_dict_get: "list_or (Some (dict_get x [])) d = list_or x d"
  by (cases x) (simp_all add: list_or_def dict_get_def)

lemma variant_defaults_fields:
  "dict_get (vtitle (variant_defaults v)) [] = dict_get (vtitle v) []"
  "dict_get (grams (variant_defaults v)) (PyInt 0) = dict_get (grams v) (PyInt 0)"
  "dict_get (available (variant_defaults v)) True = dict_get (available v) True"
  "featured_image (variant_defaults v) = featured_image v"
  by (simp_all add: variant_defaults_def dict_get_def)

lemma trim_of_variant_defaults:
  "trim_of slugify base (variant_defaults v) = trim_of slugify base v"
  by (simp add: trim_of_def variant_defaults_fields)

lemma size_text_with_defaults: "size_text charref (with_defaults pr) = size_text charref pr"
  by (simp add: size_text_def with_defaults_def dict_get_Some comp_def variant_defaults_fields)

lemma detect_size_mm_with_defaults:
  "detect_size_mm charref (with_defaults pr) = detect_size_mm charref pr"
proof -
  have t: "dict_get (title (with_defaults pr)) [] = dict_get (title pr) []"
    by (simp add: with_defaults_def dict_get_Some)
  show ?thesis
    unfolding detect_size_mm_def size_text_with_defaults t ..
qed

lemma is_stickered_with_defaults: "is_stickered (with_defaults pr) = is_stickered pr"
  by (simp add: is_stickered_def with_defaults_def dict_get_Some comp_def variant_defaults_fields)

lemma should_skip_with_defaults: "should_skip (with_defaults pr) = should_skip pr"
  by (simp add: should_skip_def with_defaults_def dict_get_Some)

lemma base_row_with_defaults:
  "base_row slugify charref (with_defaults pr) = base_row slugify charref pr"
proof -
  have f: "dict_get (title (with_defaults pr)) [] = dict_get (title pr) []"
    "dict_get (vendor (with_defaults pr)) [] = dict_get (vendor pr) []"
    "dict_get (product_type (with_defaults pr)) [] = dict_get (product_type pr) []"
    "dict_get (tags (with_defaults pr)) [] = dict_get (tags pr) []"
    "dict_get (published_at (with_defaults pr)) [] = dict_get (published_at pr) []"
    "list_or (images (with_defaults pr)) [\<lparr>src = None\<rparr>] = list_or (images pr) [\<lparr>src = None\<rparr>]"
    by (simp_all add: with_defaults_def dict_get_Some list_or_Some_dict_get)
  have d: "list_ex (\<lambda>v. dict_get (available v) True) (dict_get (variants (with_defaults pr)) []) =
        list_ex (\<lambda>v. dict_get (available v) True) (dict_get (variants pr) [])"
    by (simp add: with_defaults_def dict_get_Some list_ex_iff variant_defaults_fields)
  show ?thesis
    unfolding base_row_def f d detect_size_mm_with_defaults is_stickered_with_defaults ..
qed

lemma normalize_product_with_defaults:
  "normalize_product slugify charref (with_defaults pr) = normalize_product slugify charref pr"
proof -
  obtain base where base: "base_row slugify charref pr = Inr base"
    and n: "normalize_product slugify charref pr =
       Inr (base # map (trim_of slugify base) (list_or (variants pr) []))"
    using normalize_product_total by blast
  have v: "list_or (variants (with_defaults pr)) [] = map variant_defaults (list_or (variants pr) [])"
    by (simp add: with_defaults_def list_or_Nil dict_get_Some)
  have "normalize_product slugify charref (with_defaults pr) =
       Inr (base # map (trim_of slugify base) (list_or (variants (with_defaults pr)) []))"
    using base by (intro normalize_product_rows) (simp add: base_row_with_defaults)
  then show ?thesis
    by (simp add: n v comp_def trim_of_variant_defaults)
qed

lemma should_skip_raw_typed:
  "raw_product_type rp \<noteq> Null \<Longrightarrow> should_skip_raw rp = Inr (should_skip (typed_listing rp))"
  by (cases "raw_product_type rp")
     (simp_all add: should_skip_raw_def should_skip_def typed_listing_def json_get_def
        present_def dict_get_def)

text \<open>
  Claim C6, as amended. For every listing in which each expected field is absent or
  holds a value of its type, \<open>normalize_product\<close> returns rows and raises nothing, and
  it and \<open>should_skip\<close> return what they return on the listing in which each absent
  field holds the default the code passes (\<open>with_defaults\<close>): the empty string, the
  empty list, \<open>0\<close> grams, and \<open>True\<close> for a variant's \<open>available\<close>. On the listing as
  the file gives it, \<open>should_skip\<close> returns normally, with that same result, whenever
  \<open>product_type\<close> does not hold \<open>null\<close>.
\<close>

theorem absent_fields_take_defaults:
  "(\<exists>rows. normalize_product slugify charref pr = Inr rows) \<and>
   normalize_product slugify charref pr = normalize_product slugify charref (with_defaults pr) \<and>
   should_skip pr = should_skip (with_defaults pr) \<and>
   (raw_product_type rp \<noteq> Null \<longrightarrow>
      should_skip_raw rp = Inr (should_skip (typed_listing rp)))"
  using normalize_product_total [of slugify charref pr]
  by (auto simp: normalize_product_with_defaults should_skip_with_defaults should_skip_raw_typed)

theorem absent_fields_take_defaults_witness:
  "normalize_product (\<lambda>s. s) (\<lambda>s. s) (blank_product\<lparr>variants := Some [blank_variant]\<rparr>) =
     Inr [\<lparr>series = [], model = [], slug = [], brand = [], row_type = [],
           magnetic = False, maglev = False, smart = False, wca_legal = True,
           image_url = Some [], discontinued = False, surface_finish = None,
           stickered = False, release_date = [], size_mm = PyFloat 56, weight = PyInt 0,
           rating = PyInt 0, row_notes = [], status = ''Pending'', submitted_by = ''CubeIndex'',
           version_type = ''Base'', version_name = [], related_to = None\<rparr>,
          \<lparr>series = [], model = [], slug = '' '', brand = [], row_type = [],
           magnetic = False, maglev = False, smart = False, wca_legal = True,
           image_url = Some [], discontinued = False, surface_finish = None,
           stickered = False, release_date = [], size_mm = PyFloat 56, weight = PyInt 0,
           rating = PyInt 0, row_notes = [], status = ''Pending'', submitted_by = ''CubeIndex'',
           version_type = ''Trim'', version_name = [], related_to = Some []\<rparr>] \<and>
   should_skip (blank_product\<lparr>variants := Some [blank_variant]\<rparr>) = False \<and>
   should_skip_raw (blank_raw_product\<lparr>raw_product_type := Val ''Accessories Bundle''\<rparr>) = Inr True \<and>
   should_skip_raw blank_raw_product = Inr False"
proof -
  let ?p = "blank_product\<lparr>variants := Some [blank_variant]\<rparr>"
  let ?a = "blank_raw_product\<lparr>raw_product_type := Val ''Accessories Bundle''\<rparr>"
  have "normalize_product (\<lambda>s. s) (\<lambda>s. s) ?p =
        normalize_product (\<lambda>s. s) (\<lambda>s. s) (with_defaults ?p)"
    and "should_skip ?p = should_skip (with_defaults ?p)"
    using absent_fields_take_defaults [of "\<lambda>s. s" "\<lambda>s. s" ?p] by blast+
  moreover have "normalize_product (\<lambda>s. s) (\<lambda>s. s) (with_defaults ?p) =
     Inr [\<lparr>series = [], model = [], slug = [], brand = [], row_type = [],
           magnetic = False, maglev = False, smart = False, wca_legal = True,
           image_url = Some [], discontinued = False, surface_finish = None,
           stickered = False, release_date = [], size_mm = PyFloat 56, weight = PyInt 0,
           rating = PyInt 0, row_notes = [], status = ''Pending'', submitted_by = ''CubeIndex'',
           version_type = ''Base'', version_name = [], related_to = None\<rparr>,
          \<lparr>series = [], model = [], slug = '' '', brand = [], row_type = [],
           magnetic = False, maglev = False, smart = False, wca_legal = True,
           image_url = Some [], discontinued = False, surface_finish = None,
           stickered = False, release_date = [], size_mm = PyFloat 56, weight = PyInt 0,
           rating = PyInt 0, row_notes = [], status = ''Pending'', submitted_by = ''CubeIndex'',
           version_type = ''Trim'', version_name = [], related_to = Some []\<rparr>]"
    by code_simp
  moreover have "should_skip (with_defaults ?p) = False"
    by code_simp
  moreover have "should_skip_raw ?a = Inr True"
  proof -
    have "raw_product_type ?a \<noteq> Null" by simp
    then have "should_skip_raw ?a = Inr (should_skip (typed_listing ?a))"
      using absent_fields_take_defaults [of "\<lambda>s. s" "\<lambda>s. s" ?p ?a] by blast
    also have "\<dots> = Inr True" by code_simp
    finally show ?thesis .
  qed
  moreover have "should_skip_raw blank_raw_product = Inr False"
  proof -
    have "raw_product_type blank_raw_product \<noteq> Null" by (simp add: blank_raw_product_def)
    then have "should_skip_raw blank_raw_product = Inr (should_skip (typed_listing blank_raw_product))"
      using absent_fields_take_defaults [of "\<lambda>s. s" "\<lambda>s. s" ?p blank_raw_product] by blast
    also have "\<dots> = Inr False" by code_simp
    finally show ?thesis .
  qed
  ultimately show ?thesis by simp
qed

text \<open>
  Claim C6 as stated fails. A listing whose \<open>product_type\<close> holds \<open>null\<close> makes
  \<open>should_skip\<close> raise AttributeError, so an input condition does raise. And the default
  for a variant's \<open>available\<close> is \<open>True\<close>, not an empty string, an empty list or \<open>0\<close>:
  a listing whose only variant has no \<open>available\<close> field is not discontinued, where
  the same listing with a false availability is.
\<close>

theorem null_product_type_counterexample:
  "should_skip_raw (blank_raw_product\<lparr>raw_title := Val ''GAN 356 M'', raw_product_type := Null\<rparr>) =
     Inl AttributeError \<and>
   map discontinued
     (projr (normalize_product (\<lambda>s. s) (\<lambda>s. s)
        (blank_product\<lparr>title := Some ''GAN 356 M'', variants := Some [blank_variant]\<rparr>))) =
   [False, False] \<and>
   map discontinued
     (projr (normalize_product (\<lambda>s. s) (\<lambda>s. s)
        (blank_product\<lparr>title := Some ''GAN 356 M'',
           variants := Some [blank_variant\<lparr>available := Some False\<rparr>]\<rparr>))) =
   [True, True]"
  by code_simp

section \<open>The surface finish\<close>

lemma replace_from_Nil: "replace_from old new [] = []"
  by (subst replace_from.simps) simp

lemma replace_from_Cons:
  "old \<noteq> [] \<Longrightarrow> replace_from old new (c # cs) =
     (if prefix old (c # cs) then new @ replace_from old new (drop (length old) (c # cs))
      else c # replace_from old new cs)"
  by (subst replace_from.simps) simp

lemma replace_char: "replace s [a] [b] = map (\<lambda>c. if c = a then b else c) s"
  by (induction s) (auto simp: replace_def replace_from_Nil replace_from_Cons)

lemma remove_char: "replace s [a] [] = filter (\<lambda>c. c \<noteq> a) s"
  by (induction s) (auto simp: replace_def replace_from_Nil replace_from_Cons)

lemma surface_key_chars:
  "surface_key tag =
   filter (\<lambda>c. c \<noteq> CHR '' '') (map (\<lambda>c. if c = CHR ''_'' then CHR ''-'' else c) (lower tag))"
  by (simp add: surface_key_def replace_char remove_char)

lemma str_in_iff: "str_in sub s = (\<exists>pre post. s = pre @ sub @ post)"
proof (induction s)
  case Nil
  show ?case by auto
next
  case (Cons c cs)
  show ?case
  proof
    assume "str_in sub (c # cs)"
    then consider "prefix sub (c # cs)" | "str_in sub cs" by auto
    then show "\<exists>pre post. c # cs = pre @ sub @ post"
    proof cases
      case 1
      then obtain post where "c # cs = sub @ post" by (auto simp: prefix_def)
      then have "c # cs = [] @ sub @ post" by simp
      then show ?thesis by blast
    next
      case 2
      with Cons obtain pre post where "cs = pre @ sub @ post" by auto
      then have "c # cs = (c # pre) @ sub @ post" by simp
      then show ?thesis by blast
    qed
  next
    assume "\<exists>pre post. c # cs = pre @ sub @ post"
    then obtain pre post where e: "c # cs = pre @ sub @ post" by auto
    show "str_in sub (c # cs)"
    proof (cases pre)
      case Nil
      with e have "prefix sub (c # cs)" by (simp add: prefix_def)
      then show ?thesis by simp
    next
      case (Cons p pre')
      with e have "cs = pre' @ sub @ post" by simp
      with Cons.IH have "str_in sub cs" by auto
      then show ?thesis by simp
    qed
  qed
qed

lemma find_SomeD: "find P xs = Some x \<Longrightarrow> P x \<and> x \<in> set xs"
  by (induction xs) (auto split: if_splits)

lemma find_surface_keyword:
  "detect_surface_finish ts =
   (case find (\<lambda>tag. \<exists>(kw, name) \<in> set SURFACE_MAP. str_in kw (surface_key tag)) ts of
      None \<Rightarrow> None
    | Some tag \<Rightarrow> map_option snd (find (\<lambda>(kw, name). str_in kw (surface_key tag)) SURFACE_MAP))"
proof (induction ts)
  case Nil
  show ?case by simp
next
  case (Cons tag rest)
  show ?case
  proof (cases "find (\<lambda>(kw, name). str_in kw (surface_key tag)) SURFACE_MAP")
    case None
    then have "\<not> (\<exists>(kw, name) \<in> set SURFACE_MAP. str_in kw (surface_key tag))"
      by (auto simp: find_None_iff)
    with None Cons show ?thesis by simp
  next
    case (Some kn)
    then have "\<exists>(kw, name) \<in> set SURFACE_MAP. str_in kw (surface_key tag)"
      by (auto dest!: find_SomeD)
    with Some show ?thesis by (simp split: prod.splits)
  qed
qed

lemma detect_surface_finish_None:
  "(detect_surface_finish ts = None) =
     (\<forall>tag \<in> set ts. \<forall>(kw, name) \<in> set SURFACE_MAP. \<not> str_in kw (surface_key tag))"
proof (induction ts)
  case Nil
  show ?case by simp
next
  case (Cons tag rest)
  show ?case
  proof (cases "find (\<lambda>(kw, name). str_in kw (surface_key tag)) SURFACE_MAP")
    case None
    then have "\<forall>(kw, name) \<in> set SURFACE_MAP. \<not> str_in kw (surface_key tag)"
      by (auto simp: find_None_iff)
    with None Cons show ?thesis by simp
  next
    case (Some kn)
    then have "\<exists>(kw, name) \<in> set SURFACE_MAP. str_in kw (surface_key tag)"
      by (auto dest!: find_SomeD)
    with Some show ?thesis by (auto split: prod.splits)
  qed
qed

text \<open>
  Claim C9, as amended. \<open>detect_surface_finish\<close> normalizes a tag by lower-casing it,
  replacing every \<open>_\<close> by \<open>-\<close> and removing every space. It returns the display
  name of the first keyword of \<open>SURFACE_MAP\<close>, in the map's order, that the normalized
  form of the first matching tag contains, and \<open>None\<close> exactly when no normalized tag
  contains any keyword.
\<close>

theorem detect_surface_finish_first_match:
  "surface_key tag =
     filter (\<lambda>c. c \<noteq> CHR '' '') (map (\<lambda>c. if c = CHR ''_'' then CHR ''-'' else c) (lower tag)) \<and>
   detect_surface_finish ts =
     (case find (\<lambda>tag. \<exists>(kw, name) \<in> set SURFACE_MAP. str_in kw (surface_key tag)) ts of
        None \<Rightarrow> None
      | Some tag \<Rightarrow> map_option snd (find (\<lambda>(kw, name). str_in kw (surface_key tag)) SURFACE_MAP)) \<and>
   (detect_surface_finish ts = None) =
     (\<forall>tag \<in> set ts. \<forall>(kw, name) \<in> set SURFACE_MAP.
        \<not> (\<exists>pre post. surface_key tag = pre @ kw @ post))"
  using surface_key_chars [of tag] find_surface_keyword [of ts] detect_surface_finish_None [of ts]
  by (simp add: str_in_iff)

theorem detect_surface_finish_first_match_witness:
  "detect_surface_finish [''Magnetic'', ''Matte Frosted'', ''uv''] = Some ''Frosted'' \<and>
   detect_surface_finish [''Magnetic'', ''3x3''] = None"
proof -
  let ?a = "[''Magnetic'', ''Matte Frosted'', ''uv'']"
  let ?b = "[''Magnetic'', ''3x3'']"
  have "detect_surface_finish ?a =
     (case find (\<lambda>tag. \<exists>(kw, name) \<in> set SURFACE_MAP. str_in kw (surface_key tag)) ?a of
        None \<Rightarrow> None
      | Some tag \<Rightarrow> map_option snd (find (\<lambda>(kw, name). str_in kw (surface_key tag)) SURFACE_MAP))"
    using detect_surface_finish_first_match [of "[]" ?a] by blast
  also have "\<dots> = Some ''Frosted''"
    by code_simp
  finally have a: "detect_surface_finish ?a = Some ''Frosted''" .
  have "detect_surface_finish ?b =
     (case find (\<lambda>tag. \<exists>(kw, name) \<in> set SURFACE_MAP. str_in kw (surface_key tag)) ?b of
        None \<Rightarrow> None
      | Some tag \<Rightarrow> map_option snd (find (\<lambda>(kw, name). str_in kw (surface_key tag)) SURFACE_MAP))"
    using detect_surface_finish_first_match [of "[]" ?b] by blast
  also have "\<dots> = None"
    by code_simp
  finally have b: "detect_surface_finish ?b = None" .
  from a b show ?thesis by simp
qed

text \<open>
  Claim C9 as stated fails: the underscore is not removed but replaced by a hyphen, so
  the tag "soft_touch" matches the keyword "soft-touch", where the normalization of the
  specification finds nothing.
\<close>

theorem detect_surface_finish_underscore_counterexample:
  "detect_surface_finish [''soft_touch''] = Some ''Soft Touch'' \<and>
   detect_surface_finish_spec [''soft_touch''] = None"
  by code_simp

section \<open>The model name\<close>

lemma replace_self: "replace t t [] = []"
proof (cases t)
  case Nil
  then show ?thesis by (simp add: replace_def)
next
  case (Cons c cs)
  then show ?thesis
    by (simp add: replace_def replace_from_Cons replace_from_Nil)
qed

lemma replace_from_no_occurrence: "\<not> str_in old s \<Longrightarrow> replace_from old new s = s"
proof (induction s)
  case Nil
  show ?case by (simp add: replace_from_Nil)
next
  case (Cons c cs)
  then have "old \<noteq> []" by auto
  with Cons show ?case by (simp add: replace_from_Cons)
qed

lemma replace_no_occurrence: "\<not> str_in old s \<or> old = [] \<Longrightarrow> replace s old [] = s"
  by (auto simp: replace_def replace_from_no_occurrence)

lemma prefix_of_shorter: "prefix xs (ys @ zs) \<Longrightarrow> length xs \<le> length ys \<Longrightarrow> prefix xs ys"
  by (metis prefix_append prefix_length_le append_eq_append_conv_if append_Nil2 prefix_def
      le_antisym length_append le_add1 append_eq_conv_conj prefix_order.order_refl)

lemma replace_from_first_occurrence:
  "old \<noteq> [] \<Longrightarrow> \<not> str_in old (pre @ butlast old) \<Longrightarrow>
   replace_from old new (pre @ old @ post) = pre @ new @ replace_from old new post"
proof (induction pre)
  case Nil
  then show ?case
    by (cases old) (simp_all add: replace_from_Cons)
next
  case (Cons c pre)
  have np: "\<not> prefix old (c # pre @ old @ post)"
  proof
    assume p: "prefix old (c # pre @ old @ post)"
    have "c # pre @ old @ post = ((c # pre) @ butlast old) @ (last old # post)"
      using Cons.prems(1) by simp
    moreover have "length old \<le> length ((c # pre) @ butlast old)"
      by simp
    ultimately have "prefix old ((c # pre) @ butlast old)"
      using p prefix_of_shorter by metis
    then have "str_in old ((c # pre) @ butlast old)" by simp
    with Cons.prems(2) show False by simp
  qed
  have "\<not> str_in old (pre @ butlast old)"
    using Cons.prems(2) by simp
  with Cons.IH Cons.prems(1) np show ?case
    by (simp add: replace_from_Cons)
qed

lemma replace_first_occurrence:
  "old \<noteq> [] \<Longrightarrow> \<not> str_in old (pre @ butlast old) \<Longrightarrow>
   replace (pre @ old @ post) old [] = pre @ replace post old []"
  using replace_from_first_occurrence [of old pre "[]" post] by (simp add: replace_def)

text \<open>
  Claim C7, as amended. For every title, the model of the Base row is the title with
  every occurrence of the extracted series removed (occurrences are found from the left
  and do not overlap), then trimmed. So when the series is the whole title the model is
  the empty string, and nothing is raised; when the series is empty or does not occur in
  the title the model is the trimmed title; when the series first occurs after \<open>pre\<close>
  and is followed by \<open>post\<close>, the model is \<open>pre\<close> followed by \<open>post\<close> with its
  occurrences removed in turn, and this is the title with the series removed once when
  \<open>post\<close> holds no further occurrence.
\<close>

theorem model_is_title_without_series:
  "\<exists>base trims.
     normalize_product slugify charref pr = Inr (base # trims) \<and>
     series base = extract_series_name (dict_get (title pr) []) \<and>
     model base = strip (replace (dict_get (title pr) []) (series base) []) \<and>
     (series base = dict_get (title pr) [] \<longrightarrow> model base = []) \<and>
     (series base = [] \<or> \<not> str_in (series base) (dict_get (title pr) []) \<longrightarrow>
        model base = strip (dict_get (title pr) [])) \<and>
     (\<forall>pre post.
        series base \<noteq> [] \<and> dict_get (title pr) [] = pre @ series base @ post \<and>
        \<not> str_in (series base) (pre @ butlast (series base)) \<longrightarrow>
        model base = strip (pre @ replace post (series base) [])) \<and>
     (\<forall>pre post.
        series base \<noteq> [] \<and> dict_get (title pr) [] = pre @ series base @ post \<and>
        \<not> str_in (series base) (pre @ butlast (series base)) \<and> \<not> str_in (series base) post \<longrightarrow>
        model base = strip (pre @ post))"
proof -
  let ?t = "dict_get (title pr) []"
  obtain base where base: "base_row slugify charref pr = Inr base"
    and n: "normalize_product slugify charref pr =
       Inr (base # map (trim_of slugify base) (list_or (variants pr) []))"
    using normalize_product_total by blast
  have s: "series base = extract_series_name ?t"
    and m: "model base = strip (replace ?t (extract_series_name ?t) [])"
    using base base_row_fields [of slugify charref pr] by auto
  have m': "model base = strip (replace ?t (series base) [])"
    using m s by simp
  have 1: "series base = ?t \<longrightarrow> model base = []"
    using m' by (auto simp: replace_self strip_def)
  have 2: "series base = [] \<or> \<not> str_in (series base) ?t \<longrightarrow> model base = strip ?t"
    using m' replace_no_occurrence [of "series base" ?t] by auto
  have 3: "model base = strip (pre @ replace post (series base) [])"
    if "series base \<noteq> []" "?t = pre @ series base @ post"
       "\<not> str_in (series base) (pre @ butlast (series base))" for pre post
    using m' that replace_first_occurrence [of "series base" pre post] by simp
  have 4: "model base = strip (pre @ post)"
    if "series base \<noteq> []" "?t = pre @ series base @ post"
       "\<not> str_in (series base) (pre @ butlast (series base))" "\<not> str_in (series base) post"
    for pre post
    using 3 [OF that(1-3)] that(4) replace_no_occurrence [of "series base" post] by simp
  show ?thesis
    using n s m' 1 2 3 4 by blast
qed

theorem model_is_title_without_series_witness:
  "(\<exists>base trims.
      normalize_product (\<lambda>s. s) (\<lambda>s. s)
        (blank_product\<lparr>title := Some ''GAN 356 M Pro - Limited Edition''\<rparr>) = Inr (base # trims) \<and>
      series base = ''GAN 356'' \<and> model base = ''M Pro - Limited Edition'') \<and>
   (\<exists>base trims.
      normalize_product (\<lambda>s. s) (\<lambda>s. s)
        (blank_product\<lparr>title := Some ''GAN 356''\<rparr>) = Inr (base # trims) \<and>
      series base = ''GAN 356'' \<and> model base = [])"
proof -
  let ?a = "blank_product\<lparr>title := Some ''GAN 356 M Pro - Limited Edition''\<rparr>"
  let ?b = "blank_product\<lparr>title := Some ''GAN 356''\<rparr>"
  have ta: "dict_get (title ?a) [] = ''GAN 356 M Pro - Limited Edition''"
    and tb: "dict_get (title ?b) [] = ''GAN 356''"
    by (simp_all add: dict_get_def)
  have ea: "extract_series_name ''GAN 356 M Pro - Limited Edition'' = ''GAN 356''"
    and eb: "extract_series_name ''GAN 356'' = ''GAN 356''"
    by code_simp+
  have na: "\<not> str_in ''GAN 356'' ([] @ butlast ''GAN 356'')"
    and nb: "\<not> str_in ''GAN 356'' '' M Pro - Limited Edition''"
    and st: "strip ([] @ '' M Pro - Limited Edition'') = ''M Pro - Limited Edition''"
    by code_simp+
  obtain base trims where a:
    "normalize_product (\<lambda>s. s) (\<lambda>s. s) ?a = Inr (base # trims)"
    "series base = extract_series_name (dict_get (title ?a) [])"
    "\<forall>pre post.
        series base \<noteq> [] \<and> dict_get (title ?a) [] = pre @ series base @ post \<and>
        \<not> str_in (series base) (pre @ butlast (series base)) \<and> \<not> str_in (series base) post \<longrightarrow>
        model base = strip (pre @ post)"
    using model_is_title_without_series [of "\<lambda>s. s" "\<lambda>s. s" ?a] by blast
  from a(2) have sa: "series base = ''GAN 356''"
    by (simp only: ta ea)
  have "model base = strip ([] @ '' M Pro - Limited Edition'')"
    using a(3) [rule_format, of "[]" "'' M Pro - Limited Edition''"] na nb
    by (simp add: sa dict_get_def)
  then have ma: "model base = ''M Pro - Limited Edition''"
    by (simp only: st)
  obtain base' trims' where b:
    "normalize_product (\<lambda>s. s) (\<lambda>s. s) ?b = Inr (base' # trims')"
    "series base' = extract_series_name (dict_get (title ?b) [])"
    "series base' = dict_get (title ?b) [] \<longrightarrow> model base' = []"
    using model_is_title_without_series [of "\<lambda>s. s" "\<lambda>s. s" ?b] by blast
  from b(2) have sb: "series base' = ''GAN 356''"
    by (simp only: tb eb)
  with b(3) have mb: "model base' = []"
    by (simp add: dict_get_def)
  from a(1) sa ma b(1) sb mb show ?thesis by blast
qed

text \<open>
  Claim C7 as stated fails: \<open>str.replace\<close> without a count removes every occurrence.
  In "QiYi 3x3 QiYi MS" the series "QiYi" occurs twice and both go; removing it once
  would leave "3x3 QiYi MS".
\<close>

theorem model_series_twice_counterexample:
  "normalize_product (\<lambda>s. s) (\<lambda>s. s) (blank_product\<lparr>title := Some ''QiYi 3x3 QiYi MS''\<rparr>) =
     Inr [\<lparr>series = ''QiYi'', model = ''3x3  MS'', slug = ''QiYi 3x3  MS'', brand = [],
           row_type = [], magnetic = False, maglev = False, smart = False, wca_legal = True,
           image_url = Some [], discontinued = True, surface_finish = None,
           stickered = False, release_date = [], size_mm = PyInt 56, weight = PyInt 0,
           rating = PyInt 0, row_notes = [], status = ''Pending'', submitted_by = ''CubeIndex'',
           version_type = ''Base'', version_name = [], related_to = None\<rparr>] \<and>
   strip (remove_first (extract_series_name ''QiYi 3x3 QiYi MS'') ''QiYi 3x3 QiYi MS'') =
     ''3x3 QiYi MS''"
  by code_simp

section \<open>The pipeline\<close>

lemma normalize_product_listing_rows:
  "normalize_product slugify charref pr = Inr (listing_rows slugify charref pr)"
  using normalize_product_total [of slugify charref pr] by (auto simp: listing_rows_def)

lemma scan_products_closed:
  "scan_products slugify charref all_rows products =
   Inr (all_rows @
        concat (map (listing_rows slugify charref) (filter (\<lambda>pr. \<not> should_skip pr) products)))"
  by (induction products arbitrary: all_rows) (simp_all add: normalize_product_listing_rows)

lemma scan_files_closed:
  "scan_files slugify charref all_rows files =
   Inr (all_rows @
        concat (map (\<lambda>products.
          concat (map (listing_rows slugify charref) (filter (\<lambda>pr. \<not> should_skip pr) products)))
        files))"
  by (induction files arbitrary: all_rows) (simp_all add: scan_products_closed)

lemma deduplicate_rows_idem: "deduplicate_rows (deduplicate_rows rows) = deduplicate_rows rows"
  by (simp add: deduplicate_rows_first_per_slug first_per_slug_fixed distinct_first_per_slug)

lemma deduplicate_rows_Nil_iff: "(deduplicate_rows rows = []) = (rows = [])"
  by (cases rows) (simp_all add: deduplicate_rows_first_per_slug)

text \<open>
  Claim C5. The full pipeline is idempotent. \<open>main\<close> holds no state: what it uploads
  and dumps is the function \<open>pipeline\<close> of the listings in file order (\<open>None\<close> when no
  row was collected), so a second run over the same listings in the same order yields
  the same rows in the same order. Deduplication applied to its own output, and so to
  the output of the pipeline, returns it unchanged, and the slugs of the output are
  distinct.
\<close>

theorem pipeline_idempotent:
  "deduplicate_rows (deduplicate_rows rows) = deduplicate_rows rows \<and>
   deduplicate_rows (pipeline slugify charref files) = pipeline slugify charref files \<and>
   distinct (map slug (pipeline slugify charref files)) \<and>
   main slugify charref files =
     Inr (if pipeline slugify charref files = [] then None
          else Some (pipeline slugify charref files))"
proof -
  have "distinct (map slug (pipeline slugify charref files))"
    by (simp add: pipeline_def deduplicate_rows_first_per_slug distinct_first_per_slug)
  moreover have "main slugify charref files =
     Inr (if pipeline slugify charref files = [] then None
          else Some (pipeline slugify charref files))"
    by (auto simp: main_def scan_files_closed pipeline_def deduplicate_rows_Nil_iff)
  ultimately show ?thesis
    by (simp add: deduplicate_rows_idem pipeline_def)
qed

theorem pipeline_idempotent_witness:
  "main (\<lambda>s. s) (\<lambda>s. s)
     [[blank_product\<lparr>title := Some ''GAN 356 M''\<rparr>,
       blank_product\<lparr>title := Some ''Cube Stand'', product_type := Some ''Accessories Bundle''\<rparr>],
      [blank_product\<lparr>title := Some ''GAN 356 M'', vendor := Some ''Other Store''\<rparr>]] =
   Inr (Some
     [\<lparr>series = ''GAN 356'', model = ''M'', slug = ''GAN 356 M'', brand = [], row_type = [],
       magnetic = False, maglev = False, smart = False, wca_legal = True,
       image_url = Some [], discontinued = True, surface_finish = None,
       stickered = False, release_date = [], size_mm = PyFloat 56, weight = PyInt 0,
       rating = PyInt 0, row_notes = [], status = ''Pending'', submitted_by = ''CubeIndex'',
       version_type = ''Base'', version_name = [], related_to = None\<rparr>])"
proof -
  let ?files = "[[blank_product\<lparr>title := Some ''GAN 356 M''\<rparr>,
       blank_product\<lparr>title := Some ''Cube Stand'', product_type := Some ''Accessories Bundle''\<rparr>],
      [blank_product\<lparr>title := Some ''GAN 356 M'', vendor := Some ''Other Store''\<rparr>]]"
  have "main (\<lambda>s. s) (\<lambda>s. s) ?files =
     Inr (if pipeline (\<lambda>s. s) (\<lambda>s. s) ?files = [] then None
          else Some (pipeline (\<lambda>s. s) (\<lambda>s. s) ?files))"
    using pipeline_idempotent [of "[]" "\<lambda>s. s" "\<lambda>s. s" ?files] by blast
  moreover have "pipeline (\<lambda>s. s) (\<lambda>s. s) ?files =
     [\<lparr>series = ''GAN 356'', model = ''M'', slug = ''GAN 356 M'', brand = [], row_type = [],
       magnetic = False, maglev = False, smart = False, wca_legal = True,
       image_url = Some [], discontinued = True, surface_finish = None,
       stickered = False, release_date = [], size_mm = PyFloat 56, weight = PyInt 0,
       rating = PyInt 0, row_notes = [], status = ''Pending'', submitted_by = ''CubeIndex'',
       version_type = ''Base'', version_name = [], related_to = None\<rparr>]"
    by code_simp
  ultimately show ?thesis by simp
qed

section \<open>The size\<close>

lemma of_char_chr_lower:
  "(of_char (chr_lower c) :: nat) =
     (if (65 \<le> (of_char c :: nat) \<and> (of_char c :: nat) \<le> 90) \<or>
         (192 \<le> (of_char c :: nat) \<and> (of_char c :: nat) \<le> 222 \<and> (of_char c :: nat) \<noteq> 215)
      then of_char c + 32 else of_char c)"
  by (auto simp: chr_lower_def Let_def)

lemma char_eq_code: "(c = d) = ((of_char c :: nat) = of_char d)"
  by simp

lemma chr_lower_eq_m: "(chr_lower c = CHR ''m'') = (c = CHR ''m'' \<or> c = CHR ''M'')"
  unfolding char_eq_code [of _ "CHR ''m''"] char_eq_code [of _ "CHR ''M''"] of_char_chr_lower
  by auto

lemma chr_lower_eq_x: "(chr_lower c = CHR ''x'') = (c = CHR ''x'' \<or> c = CHR ''X'')"
  unfolding char_eq_code [of _ "CHR ''x''"] char_eq_code [of _ "CHR ''X''"] of_char_chr_lower
  by auto

lemma not_isspace_m: "c = CHR ''m'' \<or> c = CHR ''M'' \<Longrightarrow> \<not> isspace c"
  by (auto simp: isspace_def)

lemma dot_facts: "\<not> isspace (CHR ''.'')" "chr_lower (CHR ''.'') \<noteq> CHR ''m''"
  by (auto simp: isspace_def chr_lower_eq_m)

lemma case_two_heads:
  "(case t of a # b # r \<Rightarrow> P a b | _ \<Rightarrow> False) = (\<exists>a b r. t = a # b # r \<and> P a b)"
  by (auto split: list.splits)

lemma mm_tail_alt:
  "mm_tail s =
   (\<exists>m1 m2 rest. dropWhile isspace s = m1 # m2 # rest \<and>
      chr_lower m1 = CHR ''m'' \<and> chr_lower m2 = CHR ''m'')"
  unfolding mm_tail_def case_two_heads ..

lemma mm_tail_iff:
  "mm_tail s =
   (\<exists>ws m1 m2 rest. s = ws @ m1 # m2 # rest \<and> list_all isspace ws \<and>
      (m1 = CHR ''m'' \<or> m1 = CHR ''M'') \<and> (m2 = CHR ''m'' \<or> m2 = CHR ''M''))"
proof
  assume "mm_tail s"
  then obtain m1 m2 rest where d: "dropWhile isspace s = m1 # m2 # rest"
    and m: "chr_lower m1 = CHR ''m''" "chr_lower m2 = CHR ''m''"
    unfolding mm_tail_alt by blast
  have "s = takeWhile isspace s @ m1 # m2 # rest"
    using d by (metis takeWhile_dropWhile_id)
  moreover have "list_all isspace (takeWhile isspace s)"
    by (simp add: list_all_iff) (metis set_takeWhileD)
  ultimately show "\<exists>ws m1 m2 rest. s = ws @ m1 # m2 # rest \<and> list_all isspace ws \<and>
      (m1 = CHR ''m'' \<or> m1 = CHR ''M'') \<and> (m2 = CHR ''m'' \<or> m2 = CHR ''M'')"
    using m unfolding chr_lower_eq_m by blast
next
  assume "\<exists>ws m1 m2 rest. s = ws @ m1 # m2 # rest \<and> list_all isspace ws \<and>
      (m1 = CHR ''m'' \<or> m1 = CHR ''M'') \<and> (m2 = CHR ''m'' \<or> m2 = CHR ''M'')"
  then obtain ws m1 m2 rest where s: "s = ws @ m1 # m2 # rest" and ws: "list_all isspace ws"
    and m: "m1 = CHR ''m'' \<or> m1 = CHR ''M''" "m2 = CHR ''m'' \<or> m2 = CHR ''M''"
    by blast
  have "dropWhile isspace s = dropWhile isspace (m1 # m2 # rest)"
    unfolding s using ws by (intro dropWhile_append2) (simp add: list_all_iff)
  also have "\<dots> = m1 # m2 # rest"
    using not_isspace_m [OF m(1)] by simp
  finally show "mm_tail s"
    using m unfolding mm_tail_alt chr_lower_eq_m by blast
qed

lemma mm_tail_not_dot: "mm_tail (CHR ''.'' # r) = False"
  by (simp add: mm_tail_alt dot_facts)

lemma mm_at_None:
  "mm_at a b None s = (\<exists>r. s = a # b # r \<and> isdecimal a \<and> isdecimal b \<and> mm_tail r)"
  unfolding mm_at_def mm_tail_iff by (simp, blast)

lemma mm_at_Some:
  "mm_at a b (Some c) s =
   (\<exists>r. s = a # b # CHR ''.'' # c # r \<and> isdecimal a \<and> isdecimal b \<and> isdecimal c \<and> mm_tail r)"
  unfolding mm_at_def mm_tail_iff by (simp, blast)

lemma MM_PATTERN_match_Cons2:
  "MM_PATTERN_match (a # b # r) =
     (if isdecimal a \<and> isdecimal b then
        (if \<exists>d r'. r = CHR ''.'' # d # r' \<and> isdecimal d \<and> mm_tail r'
         then Some [a, b, CHR ''.'', hd (tl r)]
         else if mm_tail r then Some [a, b] else None)
      else None)"
  by (auto simp: MM_PATTERN_match_def split: list.splits)

lemma MM_PATTERN_match_short: "length s < 2 \<Longrightarrow> MM_PATTERN_match s = None"
  by (auto simp: MM_PATTERN_match_def split: list.splits)

lemma MM_PATTERN_match_iff:
  "(MM_PATTERN_match s = Some g) =
   (\<exists>a b d. mm_at a b d s \<and> g = a # b # (case d of None \<Rightarrow> [] | Some c \<Rightarrow> [CHR ''.'', c]))"
proof (cases s)
  case Nil
  then show ?thesis by (auto simp: MM_PATTERN_match_short mm_at_def)
next
  case (Cons a s1)
  show ?thesis
  proof (cases s1)
    case Nil
    with Cons show ?thesis by (auto simp: MM_PATTERN_match_short mm_at_def)
  next
    case (Cons b r)
    have s: "s = a # b # r" using \<open>s = a # s1\<close> Cons by simp
    have ex: "(\<exists>a' b' d. mm_at a' b' d s \<and> g = a' # b' # (case d of None \<Rightarrow> [] | Some c \<Rightarrow> [CHR ''.'', c])) =
          ((mm_at a b None s \<and> g = [a, b]) \<or> (\<exists>c. mm_at a b (Some c) s \<and> g = [a, b, CHR ''.'', c]))"
      (is "?L = ?R")
    proof
      assume ?L
      then obtain a' b' d where at: "mm_at a' b' d s"
        and g: "g = a' # b' # (case d of None \<Rightarrow> [] | Some c \<Rightarrow> [CHR ''.'', c])" by blast
      from at s have "a' = a" "b' = b" by (auto simp: mm_at_def)
      with at g show ?R by (cases d) auto
    next
      assume ?R
      then show ?L
      proof
        assume "mm_at a b None s \<and> g = [a, b]"
        then show ?L by (intro exI [of _ a] exI [of _ b] exI [of _ None]) simp
      next
        assume "\<exists>c. mm_at a b (Some c) s \<and> g = [a, b, CHR ''.'', c]"
        then obtain c where "mm_at a b (Some c) s" "g = [a, b, CHR ''.'', c]" by blast
        then show ?L by (intro exI [of _ a] exI [of _ b] exI [of _ "Some c"]) simp
      qed
    qed
    show ?thesis
      unfolding ex unfolding s MM_PATTERN_match_Cons2 mm_at_None mm_at_Some
      by (auto simp: mm_tail_not_dot)
  qed
qed

lemma leftmost_Some_iff:
  "(leftmost f prev s = Some g) =
   (\<exists>k < length s.
      f (if k = 0 then prev else Some (s ! (k - 1))) (drop k s) = Some g \<and>
      (\<forall>j < k. f (if j = 0 then prev else Some (s ! (j - 1))) (drop j s) = None))"
proof (induction s arbitrary: prev)
  case Nil
  show ?case by simp
next
  case (Cons c cs)
  show ?case
  proof (cases "f prev (c # cs)")
    case None
    show ?thesis
      by (simp add: None Cons Ex_less_Suc2 All_less_Suc2 nth_Cons')
  next
    case (Some g0)
    show ?thesis
    proof
      assume "leftmost f prev (c # cs) = Some g"
      with Some have "g0 = g" by simp
      with Some show "\<exists>k < length (c # cs).
          f (if k = 0 then prev else Some ((c # cs) ! (k - 1))) (drop k (c # cs)) = Some g \<and>
          (\<forall>j < k. f (if j = 0 then prev else Some ((c # cs) ! (j - 1))) (drop j (c # cs)) = None)"
        by (intro exI [of _ 0]) simp
    next
      assume "\<exists>k < length (c # cs).
          f (if k = 0 then prev else Some ((c # cs) ! (k - 1))) (drop k (c # cs)) = Some g \<and>
          (\<forall>j < k. f (if j = 0 then prev else Some ((c # cs) ! (j - 1))) (drop j (c # cs)) = None)"
      then obtain k where k: "f (if k = 0 then prev else Some ((c # cs) ! (k - 1))) (drop k (c # cs)) = Some g"
        and j: "\<forall>j < k. f (if j = 0 then prev else Some ((c # cs) ! (j - 1))) (drop j (c # cs)) = None"
        by blast
      have "k = 0"
      proof (rule ccontr)
        assume "k \<noteq> 0"
        with j have "f prev (c # cs) = None" by force
        with Some show False by simp
      qed
      with k Some show "leftmost f prev (c # cs) = Some g" by simp
    qed
  qed
qed

lemma leftmost_None_iff:
  "(leftmost f prev s = None) =
   (\<forall>k < length s. f (if k = 0 then prev else Some (s ! (k - 1))) (drop k s) = None)"
proof (induction s arbitrary: prev)
  case Nil
  show ?case by simp
next
  case (Cons c cs)
  show ?case
    by (cases "f prev (c # cs)") (simp_all add: Cons All_less_Suc2 nth_Cons')
qed

lemma MM_PATTERN_search_leftmost:
  "MM_PATTERN_search s = leftmost (\<lambda>prev. MM_PATTERN_match) prev s"
  by (induction s arbitrary: prev) (simp_all split: option.splits)

lemma NXN_PATTERN_search_leftmost:
  "NXN_PATTERN_search prev s = leftmost NXN_PATTERN_match prev s"
  by (induction s arbitrary: prev) (simp_all split: option.splits)

lemma drop_three:
  assumes "k + 2 < length s"
  shows "drop k s = s ! k # s ! (k + 1) # s ! (k + 2) # drop (k + 3) s"
proof -
  have 0: "k < length s" and 1: "Suc k < length s" and 2: "Suc (Suc k) < length s"
    using assms by simp_all
  have "drop k s = s ! k # drop (Suc k) s"
    by (rule Cons_nth_drop_Suc [OF 0, symmetric])
  also have "drop (Suc k) s = s ! Suc k # drop (Suc (Suc k)) s"
    by (rule Cons_nth_drop_Suc [OF 1, symmetric])
  also have "drop (Suc (Suc k)) s = s ! Suc (Suc k) # drop (Suc (Suc (Suc k))) s"
    by (rule Cons_nth_drop_Suc [OF 2, symmetric])
  finally show ?thesis
    by (simp add: numeral_3_eq_3 numeral_2_eq_2)
qed

lemma NXN_PATTERN_match_short: "length s < 3 \<Longrightarrow> NXN_PATTERN_match prev s = None"
  by (auto simp: NXN_PATTERN_match_def split: list.splits)

lemma NXN_PATTERN_match_Cons3:
  "(NXN_PATTERN_match prev (a' # x # b' # r) = Some (a, b)) =
   (a' = a \<and> b' = b \<and> isdecimal a \<and> isdecimal b \<and>
    (x = CHR ''x'' \<or> x = CHR ''X'' \<or> x = times_sign) \<and>
    (case prev of None \<Rightarrow> True | Some p \<Rightarrow> \<not> isword p) \<and>
    (case r of [] \<Rightarrow> True | n # _ \<Rightarrow> \<not> isword n))"
  by (auto simp: NXN_PATTERN_match_def chr_lower_eq_x times_sign_def)

lemma NXN_PATTERN_match_at:
  "(NXN_PATTERN_match (if k = 0 then None else Some (s ! (k - 1))) (drop k s) = Some (a, b)) =
   nxn_at s k a b"
proof (cases "k + 2 < length s")
  case False
  then have "length (drop k s) < 3" by simp
  then have "NXN_PATTERN_match (if k = 0 then None else Some (s ! (k - 1))) (drop k s) = None"
    by (rule NXN_PATTERN_match_short)
  with False show ?thesis by (simp add: nxn_at_def)
next
  case True
  have r: "(case drop (k + 3) s of [] \<Rightarrow> True | n # x \<Rightarrow> \<not> isword n) =
           (k + 3 = length s \<or> \<not> isword (s ! (k + 3)))"
  proof (cases "k + 3 = length s")
    case True
    then show ?thesis by simp
  next
    case False
    with \<open>k + 2 < length s\<close> have lt: "k + 3 < length s" by simp
    have "drop (k + 3) s = s ! (k + 3) # drop (Suc (k + 3)) s"
      by (rule Cons_nth_drop_Suc [OF lt, symmetric])
    with False show ?thesis by simp
  qed
  have p: "(case (if k = 0 then None else Some (s ! (k - 1))) of None \<Rightarrow> True | Some p \<Rightarrow> \<not> isword p) =
           (k = 0 \<or> \<not> isword (s ! (k - 1)))"
    by simp
  show ?thesis
    unfolding drop_three [OF True] NXN_PATTERN_match_Cons3 r p nxn_at_def
    using True by blast
qed

lemma MM_PATTERN_match_None_iff:
  "(MM_PATTERN_match s = None) = (\<forall>a b d. \<not> mm_at a b d s)"
proof -
  have "(MM_PATTERN_match s = None) = (\<forall>g. MM_PATTERN_match s \<noteq> Some g)"
    by auto
  then show ?thesis
    unfolding MM_PATTERN_match_iff by blast
qed

lemma MM_PATTERN_search_Some_iff:
  "(MM_PATTERN_search s = Some g) =
   (\<exists>k a b d.
      g = a # b # (case d of None \<Rightarrow> [] | Some c \<Rightarrow> [CHR ''.'', c]) \<and>
      mm_at a b d (drop k s) \<and>
      (\<forall>j < k. \<forall>a' b' d'. \<not> mm_at a' b' d' (drop j s)))"
proof -
  have "(MM_PATTERN_search s = Some g) =
        (\<exists>k < length s. MM_PATTERN_match (drop k s) = Some g \<and>
           (\<forall>j < k. MM_PATTERN_match (drop j s) = None))"
    unfolding MM_PATTERN_search_leftmost [of s None] leftmost_Some_iff ..
  also have "\<dots> = (\<exists>k. MM_PATTERN_match (drop k s) = Some g \<and>
           (\<forall>j < k. MM_PATTERN_match (drop j s) = None))"
  proof -
    have "k < length s" if "MM_PATTERN_match (drop k s) = Some g" for k
    proof (rule ccontr)
      assume "\<not> k < length s"
      then have "drop k s = []" by simp
      with that show False by (simp add: MM_PATTERN_match_short)
    qed
    then show ?thesis by blast
  qed
  finally show ?thesis
    unfolding MM_PATTERN_match_iff MM_PATTERN_match_None_iff by blast
qed

lemma MM_PATTERN_search_None_iff:
  "(MM_PATTERN_search s = None) = (\<forall>j a b d. \<not> mm_at a b d (drop j s))"
proof -
  have "(MM_PATTERN_search s = None) = (\<forall>k < length s. MM_PATTERN_match (drop k s) = None)"
    unfolding MM_PATTERN_search_leftmost [of s None] leftmost_None_iff ..
  also have "\<dots> = (\<forall>k. MM_PATTERN_match (drop k s) = None)"
  proof -
    have "MM_PATTERN_match (drop k s) = None" if "\<not> k < length s" for k
      using that by (simp add: MM_PATTERN_match_short)
    then show ?thesis by blast
  qed
  finally show ?thesis
    unfolding MM_PATTERN_match_None_iff .
qed

lemma NXN_PATTERN_match_None_at:
  "(NXN_PATTERN_match (if k = 0 then None else Some (s ! (k - 1))) (drop k s) = None) =
   (\<forall>a b. \<not> nxn_at s k a b)"
proof -
  have "(x = None) = (\<forall>a b. x \<noteq> Some (a, b))" for x :: "(char \<times> char) option"
    by (cases x) auto
  then have "(NXN_PATTERN_match (if k = 0 then None else Some (s ! (k - 1))) (drop k s) = None) =
     (\<forall>a b. NXN_PATTERN_match (if k = 0 then None else Some (s ! (k - 1))) (drop k s) \<noteq> Some (a, b))"
    by blast
  then show ?thesis
    unfolding NXN_PATTERN_match_at .
qed

lemma nxn_at_less: "nxn_at s k a b \<Longrightarrow> k < length s"
  by (auto simp: nxn_at_def)

lemma NXN_PATTERN_search_Some_iff:
  "(NXN_PATTERN_search None s = Some (a, b)) =
   (\<exists>k. nxn_at s k a b \<and> (\<forall>j < k. \<forall>a' b'. \<not> nxn_at s j a' b'))"
  unfolding NXN_PATTERN_search_leftmost leftmost_Some_iff
    NXN_PATTERN_match_at NXN_PATTERN_match_None_at
  using nxn_at_less by blast

lemma NXN_PATTERN_search_None_iff:
  "(NXN_PATTERN_search None s = None) = (\<forall>j a b. \<not> nxn_at s j a b)"
  unfolding NXN_PATTERN_search_leftmost leftmost_None_iff NXN_PATTERN_match_None_at
  using nxn_at_less by blast

lemma py_float_group:
  assumes "mm_at a b d s"
  shows "py_float (a # b # (case d of None \<Rightarrow> [] | Some c \<Rightarrow> [CHR ''.'', c])) =
         Inr (PyFloat (mm_value a b d))"
proof (cases d)
  case None
  with assms have "isdecimal a" "isdecimal b" by (auto simp: mm_at_def)
  with None show ?thesis by (simp add: py_float_two mm_value_def)
next
  case (Some c)
  with assms have "isdecimal a" "isdecimal b" "isdecimal c" by (auto simp: mm_at_def)
  with Some show ?thesis by (simp add: py_float_frac mm_value_def)
qed

lemma DEFAULT_SIZE_MM_lookup:
  "(map_of DEFAULT_SIZE_MM [a, CHR ''x'', b] = Some n) =
   (a = b \<and> (a, n) \<in> set [(CHR ''2'', 50), (CHR ''3'', 56), (CHR ''4'', 60),
                              (CHR ''5'', 62), (CHR ''6'', 65), (CHR ''7'', 69)])"
  by (auto simp: DEFAULT_SIZE_MM_def)

text \<open>
  Claim C4, as amended. \<open>detect_size_mm\<close> always returns a number and raises nothing.
  It applies three strategies, the first that matches winning. (1) If the lower-cased
  text (title, unescaped description, tags and variant titles joined by spaces) holds
  two adjacent decimal digits (whatever stands before them), possibly a point and one
  more digit, any white space and "mm", the number those digits denote at the leftmost
  such position is returned as a float. (2) Otherwise, if the title
  holds a digit, an x or a multiplication sign, and a digit, delimited by word
  boundaries, the leftmost such pair alone is looked up in the table (2x2 is 50, 3x3 is
  56, 4x4 is 60, 5x5 is 62, 6x6 is 65, 7x7 is 69): the mapped integer is returned when
  the key is there, 56.0 when it is not. (3) Otherwise 56.0 is returned.
\<close>

theorem detect_size_mm_first_match_wins:
  "(\<exists>n. detect_size_mm charref pr = Inr n) \<and>
   (\<forall>k a b d.
      mm_at a b d (drop k (size_text charref pr)) \<and>
      (\<forall>j < k. \<forall>a' b' d'. \<not> mm_at a' b' d' (drop j (size_text charref pr))) \<longrightarrow>
      detect_size_mm charref pr = Inr (PyFloat (mm_value a b d))) \<and>
   ((\<forall>j a' b' d'. \<not> mm_at a' b' d' (drop j (size_text charref pr))) \<longrightarrow>
      (\<forall>k a b.
         nxn_at (dict_get (title pr) []) k a b \<and>
         (\<forall>j < k. \<forall>a' b'. \<not> nxn_at (dict_get (title pr) []) j a' b') \<longrightarrow>
         detect_size_mm charref pr =
           Inr (case map_of DEFAULT_SIZE_MM [a, CHR ''x'', b] of
                  Some n \<Rightarrow> PyInt n
                | None \<Rightarrow> PyFloat 56)) \<and>
      ((\<forall>j a' b'. \<not> nxn_at (dict_get (title pr) []) j a' b') \<longrightarrow>
         detect_size_mm charref pr = Inr (PyFloat 56))) \<and>
   (\<forall>a b n.
      (map_of DEFAULT_SIZE_MM [a, CHR ''x'', b] = Some n) =
      (a = b \<and> (a, n) \<in> set [(CHR ''2'', 50), (CHR ''3'', 56), (CHR ''4'', 60),
                                 (CHR ''5'', 62), (CHR ''6'', 65), (CHR ''7'', 69)]))"
proof -
  let ?text = "size_text charref pr"
  let ?t = "dict_get (title pr) []"
  have 1: "detect_size_mm charref pr = Inr (PyFloat (mm_value a b d))"
    if "mm_at a b d (drop k ?text)"
       "\<forall>j < k. \<forall>a' b' d'. \<not> mm_at a' b' d' (drop j ?text)" for k a b d
  proof -
    have "MM_PATTERN_search ?text = Some (a # b # (case d of None \<Rightarrow> [] | Some c \<Rightarrow> [CHR ''.'', c]))"
      unfolding MM_PATTERN_search_Some_iff using that by blast
    then show ?thesis
      by (simp add: detect_size_mm_def py_float_group [OF that(1)])
  qed
  have 2: "detect_size_mm charref pr =
           Inr (case map_of DEFAULT_SIZE_MM [a, CHR ''x'', b] of
                  Some n \<Rightarrow> PyInt n
                | None \<Rightarrow> PyFloat 56)"
    if "\<forall>j a' b' d'. \<not> mm_at a' b' d' (drop j ?text)"
       "nxn_at ?t k a b" "\<forall>j < k. \<forall>a' b'. \<not> nxn_at ?t j a' b'" for k a b
  proof -
    have m: "MM_PATTERN_search ?text = None"
      unfolding MM_PATTERN_search_None_iff using that(1) by blast
    have "NXN_PATTERN_search None ?t = Some (a, b)"
      unfolding NXN_PATTERN_search_Some_iff using that(2,3) by blast
    with m show ?thesis
      by (simp add: detect_size_mm_def split: option.splits)
  qed
  have 3: "detect_size_mm charref pr = Inr (PyFloat 56)"
    if "\<forall>j a' b' d'. \<not> mm_at a' b' d' (drop j ?text)"
       "\<forall>j a' b'. \<not> nxn_at ?t j a' b'"
  proof -
    have m: "MM_PATTERN_search ?text = None"
      unfolding MM_PATTERN_search_None_iff using that(1) by blast
    have "NXN_PATTERN_search None ?t = None"
      unfolding NXN_PATTERN_search_None_iff using that(2) by blast
    with m show ?thesis
      by (simp add: detect_size_mm_def)
  qed
  show ?thesis
    using detect_size_mm_total [of charref pr] 1 2 3 DEFAULT_SIZE_MM_lookup by blast
qed

theorem detect_size_mm_first_match_wins_witness:
  "detect_size_mm (\<lambda>s. s) (blank_product\<lparr>title := Some ''Brand 3x3 Speed Cube''\<rparr>) = Inr (PyInt 56) \<and>
   detect_size_mm (\<lambda>s. s)
     (blank_product\<lparr>title := Some ''Brand 3x3 Speed Cube'', body_html := Some ''Size: 56.5mm''\<rparr>)
     = Inr (PyFloat (113 / 2)) \<and>
   detect_size_mm (\<lambda>s. s) (blank_product\<lparr>title := Some ''Pyraminx''\<rparr>) = Inr (PyFloat 56) \<and>
   detect_size_mm (\<lambda>s. s) (blank_product\<lparr>title := Some ''Big 100 MM Cube''\<rparr>) = Inr (PyFloat 0)"
proof -
  let ?A = "blank_product\<lparr>title := Some ''Brand 3x3 Speed Cube''\<rparr>"
  let ?B = "blank_product\<lparr>title := Some ''Brand 3x3 Speed Cube'', body_html := Some ''Size: 56.5mm''\<rparr>"
  let ?C = "blank_product\<lparr>title := Some ''Pyraminx''\<rparr>"
  have tA: "dict_get (title ?A) [] = ''Brand 3x3 Speed Cube''"
    and tC: "dict_get (title ?C) [] = ''Pyraminx''"
    by (simp_all add: dict_get_def)
  have "MM_PATTERN_search (size_text (\<lambda>s. s) ?A) = None"
    by code_simp
  then have mA: "\<forall>j a' b' d'. \<not> mm_at a' b' d' (drop j (size_text (\<lambda>s. s) ?A))"
    unfolding MM_PATTERN_search_None_iff .
  have "NXN_PATTERN_search None ''Brand 3x3 Speed Cube'' = Some (CHR ''3'', CHR ''3'')"
    by code_simp
  then obtain k where k: "nxn_at ''Brand 3x3 Speed Cube'' k (CHR ''3'') (CHR ''3'')"
    "\<forall>j < k. \<forall>a' b'. \<not> nxn_at ''Brand 3x3 Speed Cube'' j a' b'"
    unfolding NXN_PATTERN_search_Some_iff by blast
  have "detect_size_mm (\<lambda>s. s) ?A =
        Inr (case map_of DEFAULT_SIZE_MM [CHR ''3'', CHR ''x'', CHR ''3''] of
               Some n \<Rightarrow> PyInt n
             | None \<Rightarrow> PyFloat 56)"
    using detect_size_mm_first_match_wins [of "\<lambda>s. s" ?A] mA k unfolding tA by blast
  then have A: "detect_size_mm (\<lambda>s. s) ?A = Inr (PyInt 56)"
    by (simp add: DEFAULT_SIZE_MM_def)
  have "MM_PATTERN_search (size_text (\<lambda>s. s) ?B) = Some ''56.5''"
    by code_simp
  then obtain j a b d where g: "''56.5'' = a # b # (case d of None \<Rightarrow> [] | Some c \<Rightarrow> [CHR ''.'', c])"
    and at: "mm_at a b d (drop j (size_text (\<lambda>s. s) ?B))"
    and first: "\<forall>i < j. \<forall>a' b' d'. \<not> mm_at a' b' d' (drop i (size_text (\<lambda>s. s) ?B))"
    unfolding MM_PATTERN_search_Some_iff by blast
  from g have abd: "a = CHR ''5''" "b = CHR ''6''" "d = Some (CHR ''5'')"
    by (cases d; simp)+
  have "detect_size_mm (\<lambda>s. s) ?B = Inr (PyFloat (mm_value a b d))"
    using detect_size_mm_first_match_wins [of "\<lambda>s. s" ?B] at first by blast
  then have B: "detect_size_mm (\<lambda>s. s) ?B = Inr (PyFloat (113 / 2))"
    by (simp add: abd mm_value_def digit_val_def)
  have "MM_PATTERN_search (size_text (\<lambda>s. s) ?C) = None"
    by code_simp
  then have mC: "\<forall>j a' b' d'. \<not> mm_at a' b' d' (drop j (size_text (\<lambda>s. s) ?C))"
    unfolding MM_PATTERN_search_None_iff .
  have "NXN_PATTERN_search None ''Pyraminx'' = None"
    by code_simp
  then have nC: "\<forall>j a' b'. \<not> nxn_at ''Pyraminx'' j a' b'"
    unfolding NXN_PATTERN_search_None_iff .
  have C: "detect_size_mm (\<lambda>s. s) ?C = Inr (PyFloat 56)"
    using detect_size_mm_first_match_wins [of "\<lambda>s. s" ?C] mC nC unfolding tC by blast
  let ?D = "blank_product\<lparr>title := Some ''Big 100 MM Cube''\<rparr>"
  have "MM_PATTERN_search (size_text (\<lambda>s. s) ?D) = Some ''00''"
    by code_simp
  then obtain j' a' b' d' where g': "''00'' = a' # b' # (case d' of None \<Rightarrow> [] | Some c \<Rightarrow> [CHR ''.'', c])"
    and at': "mm_at a' b' d' (drop j' (size_text (\<lambda>s. s) ?D))"
    and first': "\<forall>i < j'. \<forall>a b d. \<not> mm_at a b d (drop i (size_text (\<lambda>s. s) ?D))"
    unfolding MM_PATTERN_search_Some_iff by blast
  from g' have abd': "a' = CHR ''0''" "b' = CHR ''0''" "d' = None"
    by (cases d'; simp)+
  have "detect_size_mm (\<lambda>s. s) ?D = Inr (PyFloat (mm_value a' b' d'))"
    using detect_size_mm_first_match_wins [of "\<lambda>s. s" ?D] at' first' by blast
  then have D: "detect_size_mm (\<lambda>s. s) ?D = Inr (PyFloat 0)"
    by (simp add: abd' mm_value_def digit_val_def)
  from A B C D show ?thesis by blast
qed

text \<open>
  Claim C4 as stated fails. The pattern asks for exactly two digits, so "5mm" is not a
  measurement and the listing falls through to the default; and only the leftmost NxN
  pair of the title is looked up, so "2x3 and 4x4 Set" gives the default although 4x4 is
  in the table.
\<close>

theorem detect_size_mm_one_digit_counterexample:
  "size_text (\<lambda>s. s) (blank_product\<lparr>title := Some ''Mini Cube 5mm''\<rparr>) = ''mini cube 5mm '' \<and>
   detect_size_mm (\<lambda>s. s) (blank_product\<lparr>title := Some ''Mini Cube 5mm''\<rparr>) = Inr (PyFloat 56) \<and>
   detect_size_mm (\<lambda>s. s) (blank_product\<lparr>title := Some ''2x3 and 4x4 Set''\<rparr>) = Inr (PyFloat 56) \<and>
   map_of DEFAULT_SIZE_MM ''4x4'' = Some 60"
  by code_simp

end
